theory Spec2Isabelle
  imports Complex_Main "HOL-Library.Multiset"
begin

section \<open>Polyhedra: the general polyhedral class, the platonic solids and the convex hull\<close>

text \<open>
  A shallow embedding of \<^verbatim>\<open>manim/mobject/three_d/polyhedra.py\<close>.

  Python lists are HOL lists, Python integers are \<^typ>\<open>int\<close>, a dictionary is an
  association list in insertion order, read with \<^const>\<open>map_of\<close>. An exception is a value
  \<open>Inl e\<close> of the sum type \<open>error + 'a\<close>. The coordinate type \<open>'c\<close> of the general class
  is left open: the class never computes with coordinates, it only stores and copies them.
\<close>

subsection \<open>Errors\<close>

text \<open>
  \<open>KeyError\<close> is what a failed dictionary lookup raises, \<open>ValueError\<close> what the polygon
  constructor raises when it is given no vertex. \<open>InvalidFaceIndexError\<close>,
  \<open>DegenerateFaceError\<close> and \<open>DegenerateInputError\<close> are the error names of the
  specification; no \<^verbatim>\<open>raise\<close> of them occurs in the source file.
\<close>

datatype error =
  KeyError | ValueError | InvalidFaceIndexError | DegenerateFaceError | DegenerateInputError

text \<open>A list comprehension whose body may raise: the first failure ends it.\<close>

fun list_comp :: "('a \<Rightarrow> error + 'b) \<Rightarrow> 'a list \<Rightarrow> error + 'b list" where
  "list_comp f [] = Inr []"
| "list_comp f (x # xs) =
     (case f x of
        Inl e \<Rightarrow> Inl e
      | Inr y \<Rightarrow> (case list_comp f xs of Inl e \<Rightarrow> Inl e | Inr ys \<Rightarrow> Inr (y # ys)))"

text \<open>\<^verbatim>\<open>enumerate(xs)\<close>, and \<^verbatim>\<open>m[k]\<close> on a dictionary.\<close>

definition enumerate_py :: "'a list \<Rightarrow> (int \<times> 'a) list" where
  "enumerate_py xs = zip (map int [0..<length xs]) xs"

definition getitem :: "('k \<times> 'v) list \<Rightarrow> 'k \<Rightarrow> error + 'v" where
  "getitem m k = (case map_of m k of None \<Rightarrow> Inl KeyError | Some v \<Rightarrow> Inr v)"

subsection \<open>The display objects\<close>

text \<open>
  Modelled from the spec: \<^verbatim>\<open>Polygon\<close>, \<^verbatim>\<open>VGroup\<close>, \<^verbatim>\<open>Dot3D\<close> and \<^verbatim>\<open>Graph\<close> are
  imported by the source file and defined elsewhere. A polygon is the external ``polygon
  renderer'' applied to an ordered list of positions: an object with an identity (\<open>fid\<close>,
  numbered in the order of creation) whose geometry is determined by the corner list it
  was built from. The renderer starts its path at the first position, so a call with no
  position at all fails (\<open>Polygon\<close> below). A graph vertex is an object with an identity (\<open>vid\<close>) and a current
  position (\<open>center\<close>, what \<^verbatim>\<open>get_center()\<close> returns): the ``position provider''. The
  graph holds its vertex objects in a dictionary keyed by vertex index, and the edge list
  it was given. Styling (\<^verbatim>\<open>faces_config\<close>, \<^verbatim>\<open>graph_config\<close>) is opaque to the class and
  left out.
\<close>

record 'c polygon =
  fid :: nat
  corners :: "'c list"

record 'c dot3d =
  vid :: nat
  center :: 'c

record 'c graph =
  vertices :: "(int \<times> 'c dot3d) list"
  graph_edges :: "(int \<times> int) list"

text \<open>
  Modelled from the spec: the call \<^verbatim>\<open>Polygon(*face, **self.faces_config)\<close> of the display
  library. It takes the first vertex off the sequence of its arguments, which raises
  \<open>ValueError\<close> when the face is empty; \<open>oid\<close> is the number of objects created so far.
\<close>

definition Polygon :: "nat \<Rightarrow> 'c list \<Rightarrow> error + 'c polygon" where
  "Polygon oid face = (if face = [] then Inl ValueError else Inr \<lparr>fid = oid, corners = face\<rparr>)"

text \<open>
  Modelled from the spec: the constructor \<^verbatim>\<open>Graph(vertex_indices, edges, layout=layout)\<close>
  is not part of the source file. It makes one vertex object per index, in the order given,
  placed at \<^verbatim>\<open>layout[v]\<close>; \<open>oid\<close> is the number of objects created so far.
\<close>

definition Graph :: "nat \<Rightarrow> int list \<Rightarrow> (int \<times> int) list \<Rightarrow> (int \<times> 'c) list
    \<Rightarrow> error + 'c graph" where
  "Graph oid vs es lay =
     (case list_comp (getitem lay) vs of
        Inl e \<Rightarrow> Inl e
      | Inr cs \<Rightarrow>
          Inr \<lparr>vertices = zip vs (map (\<lambda>(i, c). \<lparr>vid = oid + i, center = c\<rparr>)
                                   (zip [0..<length cs] cs)),
               graph_edges = es\<rparr>)"

subsection \<open>Polyhedron\<close>

text \<open>
  The attributes the constructor sets. \<open>next_id\<close> is not an attribute: it counts the
  display objects created so far and stands for the identity of Python objects, a new
  object getting the next number.
\<close>

record 'c polyhedron =
  vertex_coords :: "'c list"
  vertex_indices :: "int list"
  layout :: "(int \<times> 'c) list"
  faces_list :: "int list list"
  face_coords :: "'c list list"
  edges :: "(int \<times> int) list"
  faces :: "'c polygon list"
  graph :: "'c graph"
  next_id :: nat

text \<open>\<^verbatim>\<open>get_edges\<close>: the loop \<^verbatim>\<open>edges += zip(face, face[1:] + face[:1])\<close>.\<close>

fun get_edges :: "int list list \<Rightarrow> (int \<times> int) list" where
  "get_edges [] = []"
| "get_edges (face # fl) = zip face (drop 1 face @ take 1 face) @ get_edges fl"

text \<open>
  \<^verbatim>\<open>create_faces\<close>: one fresh polygon per face, in order; the first face for which
  \<^verbatim>\<open>Polygon\<close> raises ends the loop. \<open>oid\<close> is the number of objects created so far; the
  result carries the new count.
\<close>

fun create_faces :: "nat \<Rightarrow> 'c list list \<Rightarrow> error + 'c polygon list \<times> nat" where
  "create_faces oid [] = Inr ([], oid)"
| "create_faces oid (face # fcs) =
     (case Polygon oid face of
        Inl e \<Rightarrow> Inl e
      | Inr polygon \<Rightarrow>
          (case create_faces (Suc oid) fcs of
             Inl e \<Rightarrow> Inl e
           | Inr (face_group, oid') \<Rightarrow> Inr (polygon # face_group, oid')))"

text \<open>
  \<^verbatim>\<open>Polyhedron.__init__\<close>. The statements of the constructor that can raise are, in this
  order, the comprehension \<^verbatim>\<open>[[self.layout[j] for j in i] for i in faces_list]\<close> and the
  call of \<^verbatim>\<open>create_faces\<close>.
\<close>

definition Polyhedron_init :: "'c list \<Rightarrow> int list list \<Rightarrow> error + 'c polyhedron" where
  "Polyhedron_init coords fl =
     (let vidx = map int [0..<length coords];
          lay = enumerate_py coords
      in case list_comp (list_comp (getitem lay)) fl of
           Inl e \<Rightarrow> Inl e
         | Inr fc \<Rightarrow>
             (let es = get_edges fl
              in case create_faces 0 fc of
                   Inl e \<Rightarrow> Inl e
                 | Inr (fs, oid) \<Rightarrow>
                     (case Graph oid vidx es lay of
                        Inl e \<Rightarrow> Inl e
                      | Inr g \<Rightarrow>
                          Inr \<lparr>vertex_coords = coords, vertex_indices = vidx, layout = lay,
                               faces_list = fl, face_coords = fc, edges = es, faces = fs,
                               graph = g, next_id = oid + length vidx\<rparr>)))"

text \<open>
  \<^verbatim>\<open>extract_face_coords\<close>: the current centers of the graph's vertex objects, in the order
  of the graph's vertex dictionary, numbered by \<^verbatim>\<open>enumerate\<close>, then read once per face
  index. \<^verbatim>\<open>self.vertex_coords\<close> and \<^verbatim>\<open>self.layout\<close> do not occur in it.
\<close>

definition get_center :: "'c graph \<Rightarrow> int \<Rightarrow> error + 'c" where
  "get_center g v = (case getitem (vertices g) v of Inl e \<Rightarrow> Inl e | Inr dot \<Rightarrow> Inr (center dot))"

definition extract_face_coords :: "'c polyhedron \<Rightarrow> error + 'c list list" where
  "extract_face_coords s =
     (case list_comp (get_center (graph s)) (map fst (vertices (graph s))) of
        Inl e \<Rightarrow> Inl e
      | Inr new_vertex_coords \<Rightarrow>
          (let lay = enumerate_py new_vertex_coords
           in list_comp (list_comp (getitem lay)) (faces_list s)))"

text \<open>
  Modelled from the spec: \<^verbatim>\<open>match_points\<close> is a method of the display library, not of
  the source file. It ``replaces the displayed polygon set, preserving external
  references'': member by member, the geometry of the new polygon is copied into the
  existing polygon object, which keeps its identity; members without a partner are left
  as they are.
\<close>

fun match_points :: "'c polygon list \<Rightarrow> 'c polygon list \<Rightarrow> 'c polygon list" where
  "match_points (f # fs) (n # ns) = f\<lparr>corners := corners n\<rparr> # match_points fs ns"
| "match_points fs ns = fs"

text \<open>\<^verbatim>\<open>update_faces\<close>, the synchronization step. Its argument \<^verbatim>\<open>m\<close> is not used.\<close>

definition update_faces :: "'c polyhedron \<Rightarrow> error + 'c polyhedron" where
  "update_faces s =
     (case extract_face_coords s of
        Inl e \<Rightarrow> Inl e
      | Inr fc \<Rightarrow>
          (case create_faces (next_id s) fc of
             Inl e \<Rightarrow> Inl e
           | Inr (new_faces, oid) \<Rightarrow>
               Inr (s\<lparr>faces := match_points (faces s) new_faces, next_id := oid\<rparr>)))"

text \<open>
  Modelled from the spec: after the construction only vertex positions change, and the
  synchronization step is the only reaction to it. So a polyhedron lives through two kinds
  of events: external code moves a vertex object of the graph (\<open>move_vertex\<close>, an action
  of the display library, not of the source file), and the synchronization step runs.
  \<open>constructed coords fl s\<close> says that the polyhedron \<open>s\<close> was constructed from \<open>coords\<close>
  and \<open>fl\<close> and has lived through any number of such events.
\<close>

definition move_vertex :: "int \<Rightarrow> 'c \<Rightarrow> 'c polyhedron \<Rightarrow> 'c polyhedron" where
  "move_vertex v p s =
     s\<lparr>graph := (graph s)\<lparr>vertices :=
          map (\<lambda>(k, dot). if k = v then (k, dot\<lparr>center := p\<rparr>) else (k, dot))
              (vertices (graph s))\<rparr>\<rparr>"

inductive constructed :: "'c list \<Rightarrow> int list list \<Rightarrow> 'c polyhedron \<Rightarrow> bool" where
  init: "Polyhedron_init coords fl = Inr s \<Longrightarrow> constructed coords fl s"
| move: "constructed coords fl s \<Longrightarrow> constructed coords fl (move_vertex v p s)"
| sync: "constructed coords fl s \<Longrightarrow> update_faces s = Inr s' \<Longrightarrow> constructed coords fl s'"

subsection \<open>The platonic solids\<close>

text \<open>
  A coordinate \<^verbatim>\<open>np.array([x, y, z])\<close> is a triple; the reals stand for the floating-point
  numbers of the source.
\<close>

type_synonym point3d = "real \<times> real \<times> real"

definition Tetrahedron :: "real \<Rightarrow> error + point3d polyhedron" where
  "Tetrahedron edge_length =
     (let unit = edge_length * sqrt 2 / 4
      in Polyhedron_init
           [(unit, unit, unit), (unit, - unit, - unit), (- unit, unit, - unit),
            (- unit, - unit, unit)]
           [[0, 1, 2], [3, 0, 2], [0, 1, 3], [3, 1, 2]])"

definition Octahedron :: "real \<Rightarrow> error + point3d polyhedron" where
  "Octahedron edge_length =
     (let unit = edge_length * sqrt 2 / 2
      in Polyhedron_init
           [(unit, 0, 0), (- unit, 0, 0), (0, unit, 0), (0, - unit, 0), (0, 0, unit),
            (0, 0, - unit)]
           [[2, 4, 1], [0, 4, 2], [4, 3, 0], [1, 3, 4], [3, 5, 0], [1, 5, 3], [2, 5, 1],
            [0, 5, 2]])"

definition Icosahedron :: "real \<Rightarrow> error + point3d polyhedron" where
  "Icosahedron edge_length =
     (let unit_a = edge_length * ((1 + sqrt 5) / 4);
          unit_b = edge_length * (1 / 2)
      in Polyhedron_init
           [(0, unit_b, unit_a), (0, - unit_b, unit_a), (0, unit_b, - unit_a),
            (0, - unit_b, - unit_a), (unit_b, unit_a, 0), (unit_b, - unit_a, 0),
            (- unit_b, unit_a, 0), (- unit_b, - unit_a, 0), (unit_a, 0, unit_b),
            (unit_a, 0, - unit_b), (- unit_a, 0, unit_b), (- unit_a, 0, - unit_b)]
           [[1, 8, 0], [1, 5, 7], [8, 5, 1], [7, 3, 5], [5, 9, 3], [8, 9, 5], [3, 2, 9],
            [9, 4, 2], [8, 4, 9], [0, 4, 8], [6, 4, 0], [6, 2, 4], [11, 2, 6], [3, 11, 2],
            [0, 6, 10], [10, 1, 0], [10, 7, 1], [11, 7, 3], [10, 11, 7], [10, 11, 6]])"

definition Dodecahedron :: "real \<Rightarrow> error + point3d polyhedron" where
  "Dodecahedron edge_length =
     (let unit_a = edge_length * ((1 + sqrt 5) / 4);
          unit_b = edge_length * ((3 + sqrt 5) / 4);
          unit_c = edge_length * (1 / 2)
      in Polyhedron_init
           [(unit_a, unit_a, unit_a), (unit_a, unit_a, - unit_a), (unit_a, - unit_a, unit_a),
            (unit_a, - unit_a, - unit_a), (- unit_a, unit_a, unit_a),
            (- unit_a, unit_a, - unit_a), (- unit_a, - unit_a, unit_a),
            (- unit_a, - unit_a, - unit_a), (0, unit_c, unit_b), (0, unit_c, - unit_b),
            (0, - unit_c, - unit_b), (0, - unit_c, unit_b), (unit_c, unit_b, 0),
            (- unit_c, unit_b, 0), (unit_c, - unit_b, 0), (- unit_c, - unit_b, 0),
            (unit_b, 0, unit_c), (- unit_b, 0, unit_c), (unit_b, 0, - unit_c),
            (- unit_b, 0, - unit_c)]
           [[18, 16, 0, 12, 1], [3, 18, 16, 2, 14], [3, 10, 9, 1, 18], [1, 9, 5, 13, 12],
            [0, 8, 4, 13, 12], [2, 16, 0, 8, 11], [4, 17, 6, 11, 8], [17, 19, 5, 13, 4],
            [19, 7, 15, 6, 17], [6, 15, 14, 2, 11], [19, 5, 9, 10, 7], [7, 10, 3, 14, 15]])"

subsection \<open>The hull state\<close>

text \<open>
  Modelled from the spec: the hull engine (\<^verbatim>\<open>manim.utils.qhull\<close>) is imported by the
  source file and defined elsewhere. The source file reads a hull state only through
  \<^verbatim>\<open>hull.facets\<close>, \<^verbatim>\<open>hull.removed\<close>, \<^verbatim>\<open>facet.subfacets\<close>, \<^verbatim>\<open>subfacet.points\<close> and
  \<^verbatim>\<open>point.coordinates\<close>. A point is a coordinate plus an identity (\<open>pid\<close>); points are
  dictionary keys and set members, compared by HOL equality. The subfacets of a facet and
  the points of a subfacet are listed in the order in which iterating them yields them.
\<close>

datatype 'c point = Point (pid: nat) (coordinates: 'c)

datatype 'c subfacet = SubFacet (points: "'c point list")

datatype 'c facet = Facet (subfacets: "'c subfacet list")

record 'c hull_state =
  facets :: "'c facet list"
  removed :: "'c facet list"

text \<open>
  The source file builds two Python sets and iterates them: \<^verbatim>\<open>set(hull.facets) -
  hull.removed\<close> and \<^verbatim>\<open>tmp\<close>. Python does not define the order in which a set yields its
  elements, so that order is a parameter of the model: a function from the sequence of
  elements added to the set to the sequence the iteration yields. What Python does
  guarantee is \<open>set_iteration\<close>: every element of the set is yielded exactly once.
\<close>

definition set_iteration :: "('a list \<Rightarrow> 'a list) \<Rightarrow> bool" where
  "set_iteration it \<longleftrightarrow> (\<forall>xs. distinct (it xs) \<and> set (it xs) = set xs)"

text \<open>The elements of a sequence in the order of their first occurrence.\<close>

definition first_seen :: "'a list \<Rightarrow> 'a list" where
  "first_seen xs = rev (remdups (rev xs))"

text \<open>
  One order a hash set can yield: by hash slot (here the point's identity modulo the
  table size 8), not by insertion.
\<close>

definition slot_order :: "'c point list \<Rightarrow> 'c point list" where
  "slot_order xs = sort_key (\<lambda>p. pid p mod 8) (first_seen xs)"

subsection \<open>ConvexHull3D: face extraction\<close>

text \<open>
  The state of the extraction loop is \<^verbatim>\<open>vertices\<close>, the dictionary \<^verbatim>\<open>d\<close> and the counter
  \<^verbatim>\<open>c\<close>; \<^verbatim>\<open>tmp\<close> is the sequence of points added to the facet's set so far.
\<close>

type_synonym 'c table = "'c list \<times> ('c point \<times> int) list \<times> int"

text \<open>The body of the innermost loop.\<close>

fun visit_point :: "'c point \<Rightarrow> 'c table \<times> 'c point list \<Rightarrow> 'c table \<times> 'c point list" where
  "visit_point point ((verts, d, c), tmp) =
     (if map_of d point = None
      then ((verts @ [coordinates point], d @ [(point, c)], c + 1), tmp @ [point])
      else ((verts, d, c), tmp @ [point]))"

text \<open>\<^verbatim>\<open>for point in subfacet.points\<close> and \<^verbatim>\<open>for subfacet in facet.subfacets\<close>.\<close>

fun points_loop :: "'c point list \<Rightarrow> 'c table \<times> 'c point list \<Rightarrow> 'c table \<times> 'c point list" where
  "points_loop [] acc = acc"
| "points_loop (point # ps) acc = points_loop ps (visit_point point acc)"

fun subfacets_loop :: "'c subfacet list \<Rightarrow> 'c table \<times> 'c point list
    \<Rightarrow> 'c table \<times> 'c point list" where
  "subfacets_loop [] acc = acc"
| "subfacets_loop (subfacet # sfs) acc = subfacets_loop sfs (points_loop (points subfacet) acc)"

text \<open>
  \<^verbatim>\<open>for facet in facets\<close>: the body starts with an empty \<^verbatim>\<open>tmp\<close> and ends with
  \<^verbatim>\<open>faces.append([d[point] for point in tmp])\<close>, which iterates the set \<^verbatim>\<open>tmp\<close>.
\<close>

fun facets_loop :: "('c point list \<Rightarrow> 'c point list) \<Rightarrow> 'c facet list
    \<Rightarrow> 'c table \<times> int list list \<Rightarrow> error + 'c table \<times> int list list" where
  "facets_loop it [] acc = Inr acc"
| "facets_loop it (facet # fs) (tab, fcs) =
     (case subfacets_loop (subfacets facet) (tab, []) of
        ((verts, d, c), tmp) \<Rightarrow>
          (case list_comp (getitem d) (it tmp) of
             Inl e \<Rightarrow> Inl e
           | Inr face \<Rightarrow> facets_loop it fs ((verts, d, c), fcs @ [face])))"

text \<open>\<^verbatim>\<open>facets = set(hull.facets) - hull.removed\<close>, in the order its iteration yields.\<close>

definition live_facets :: "('c facet list \<Rightarrow> 'c facet list) \<Rightarrow> 'c hull_state \<Rightarrow> 'c facet list" where
  "live_facets itf h = itf (filter (\<lambda>f. f \<notin> set (removed h)) (facets h))"

text \<open>The section ``Extract Faces'' of \<^verbatim>\<open>ConvexHull3D.__init__\<close>.\<close>

definition extract_faces :: "('c facet list \<Rightarrow> 'c facet list) \<Rightarrow> ('c point list \<Rightarrow> 'c point list)
    \<Rightarrow> 'c hull_state \<Rightarrow> error + 'c table \<times> int list list" where
  "extract_faces itf itp h = facets_loop itp (live_facets itf h) (([], [], 0), [])"

subsection \<open>ConvexHull3D\<close>

text \<open>
  \<^verbatim>\<open>ConvexHull3D.__init__\<close>: build the hull, extract vertices and faces, call the
  constructor of \<^verbatim>\<open>Polyhedron\<close>. The hull engine is not part of the source file:
  \<^verbatim>\<open>QuickHull(tolerance).build(array)\<close> is the parameter \<open>build\<close>, a function of the
  tolerance and the points that returns the hull state it leaves or the exception it
  raises. An exception of the build ends the constructor.
\<close>

definition ConvexHull3D_init :: "(real \<Rightarrow> point3d list \<Rightarrow> error + point3d hull_state)
    \<Rightarrow> (point3d facet list \<Rightarrow> point3d facet list) \<Rightarrow> (point3d point list \<Rightarrow> point3d point list)
    \<Rightarrow> point3d list \<Rightarrow> real \<Rightarrow> error + point3d polyhedron" where
  "ConvexHull3D_init build itf itp array tolerance =
     (case build tolerance array of
        Inl e \<Rightarrow> Inl e
      | Inr h \<Rightarrow>
          (case extract_faces itf itp h of
             Inl e \<Rightarrow> Inl e
           | Inr ((verts, d, c), fcs) \<Rightarrow> Polyhedron_init verts fcs))"

subsection \<open>Notions of the specification\<close>

text \<open>
  The cyclic adjacent pairs of a face cycle \<^verbatim>\<open>(v0..vk)\<close>: the pairs
  \<^verbatim>\<open>(vi, v((i+1) mod (k+1)))\<close> for \<^verbatim>\<open>i = 0..k\<close>.
\<close>

definition cyclic_pairs :: "int list \<Rightarrow> (int \<times> int) list" where
  "cyclic_pairs face = map (\<lambda>i. (face ! i, face ! ((i + 1) mod length face))) [0..<length face]"

text \<open>The deduplicated undirected edge set of an edge list.\<close>

definition undirected_edges :: "(int \<times> int) list \<Rightarrow> int set set" where
  "undirected_edges es = (\<lambda>(a, b). {a, b}) ` set es"

text \<open>All points a facet's subfacets touch, in the order of the traversal.\<close>

definition facet_points :: "'c facet \<Rightarrow> 'c point list" where
  "facet_points f = concat (map points (subfacets f))"

text \<open>The index of the first occurrence of an element of a list.\<close>

fun position :: "'a list \<Rightarrow> 'a \<Rightarrow> int" where
  "position [] x = 0"
| "position (y # ys) x = (if x = y then 0 else 1 + position ys x)"

text \<open>
  The face of a facet with its points in insertion order: the indices, in the table of
  the points \<open>seen\<close>, of the facet's distinct points in the order of their first visit.
\<close>

definition insertion_order_face :: "'c point list \<Rightarrow> 'c facet \<Rightarrow> int list" where
  "insertion_order_face seen f = map (position seen) (first_seen (facet_points f))"

subsection \<open>Invariants\<close>

text \<open>
  The invariant of a constructed polyhedron that the synchronization step relies on: the
  graph's vertex dictionary has the keys \<open>0, 1, \<dots>\<close> in order, every face index is one
  of them, no face is empty, and there is one polygon per face.
\<close>

definition wf_polyhedron :: "'c polyhedron \<Rightarrow> bool" where
  "wf_polyhedron s \<longleftrightarrow>
     map fst (vertices (graph s)) = map int [0..<length (vertices (graph s))] \<and>
     list_all (list_all (\<lambda>j. 0 \<le> j \<and> j < int (length (vertices (graph s))))) (faces_list s) \<and>
     [] \<notin> set (faces_list s) \<and>
     length (faces s) = length (faces_list s)"

text \<open>
  What the synchronization step leaves in \<^verbatim>\<open>self.faces\<close>: every polygon object with the
  corner list read off the current centers of the graph's vertices.
\<close>

definition synced_faces :: "'c polyhedron \<Rightarrow> 'c polygon list" where
  "synced_faces s =
     map (\<lambda>(f, face). f\<lparr>corners := map (\<lambda>j. center (snd (vertices (graph s) ! nat j))) face\<rparr>)
         (zip (faces s) (faces_list s))"

text \<open>
  The vertex table, the dictionary and the counter after the points \<open>hist\<close> have been
  visited: the distinct points in first-sight order, numbered from 0.
\<close>

definition table_of :: "'c point list \<Rightarrow> 'c table" where
  "table_of hist =
     (let seen = first_seen hist
      in (map coordinates seen, zip seen (map int [0..<length seen]), int (length seen)))"

subsection \<open>Examples\<close>

text \<open>The square pyramid of the class's documentation.\<close>

definition square_pyramid :: "error + (int \<times> int \<times> int) polyhedron" where
  "square_pyramid =
     Polyhedron_init [(1, 1, 0), (1, - 1, 0), (- 1, - 1, 0), (- 1, 1, 0), (0, 0, 2)]
       [[0, 1, 4], [1, 2, 4], [2, 3, 4], [3, 0, 4], [0, 1, 2, 3]]"

text \<open>
  A hull state as the engine leaves it for the points \<open>(0,0,0)\<close>, \<open>(1,0,0)\<close>, \<open>(0,1,0)\<close>,
  \<open>(0,0,1)\<close>, \<open>(1,1,1)\<close>: the four facets of the initial simplex, of which the one
  visible from \<open>(1,1,1)\<close> is retired, and the three facets that replace it. The subfacets
  of a triangle are its three edges.
\<close>

definition hull_point :: "nat \<Rightarrow> point3d point" where
  "hull_point i = Point i ([(0, 0, 0), (1, 0, 0), (0, 1, 0), (0, 0, 1), (1, 1, 1)] ! i)"

definition triangle :: "nat \<Rightarrow> nat \<Rightarrow> nat \<Rightarrow> point3d facet" where
  "triangle i j k =
     Facet [SubFacet [hull_point j, hull_point k], SubFacet [hull_point i, hull_point k],
            SubFacet [hull_point i, hull_point j]]"

definition example_hull :: "point3d hull_state" where
  "example_hull =
     \<lparr>facets = [triangle 1 2 3, triangle 0 2 3, triangle 0 1 3, triangle 0 1 2, triangle 1 2 4,
                triangle 2 3 4, triangle 1 3 4],
      removed = [triangle 1 2 3]\<rparr>"

section \<open>Verification\<close>

subsection \<open>Dictionaries and comprehensions\<close>

lemma map_of_enumerate_py:
  "map_of (enumerate_py xs) j = (if 0 \<le> j \<and> j < int (length xs) then Some (xs ! nat j) else None)"
proof (cases "0 \<le> j \<and> j < int (length xs)")
  case True
  then obtain n where n: "j = int n" "n < length xs"
    by (metis zero_le_imp_eq_int of_nat_less_iff)
  have "distinct (map fst (enumerate_py xs))"
    by (simp add: enumerate_py_def distinct_map inj_on_def)
  moreover have "(int n, xs ! n) \<in> set (enumerate_py xs)"
    using n by (force simp: enumerate_py_def set_zip)
  ultimately have "map_of (enumerate_py xs) (int n) = Some (xs ! n)"
    by (rule map_of_is_SomeI)
  with True n show ?thesis by simp
next
  case False
  then have "j \<notin> fst ` set (enumerate_py xs)"
    by (auto simp: enumerate_py_def set_zip)
  then have "map_of (enumerate_py xs) j = None"
    by (simp add: map_of_eq_None_iff)
  with False show ?thesis by simp
qed

lemma getitem_enumerate_py:
  "getitem (enumerate_py xs) j = (if 0 \<le> j \<and> j < int (length xs) then Inr (xs ! nat j) else Inl KeyError)"
  by (simp add: getitem_def map_of_enumerate_py)

lemma list_comp_Inr:
  "(\<And>x. x \<in> set xs \<Longrightarrow> f x = Inr (g x)) \<Longrightarrow> list_comp f xs = Inr (map g xs)"
  by (induction xs) auto

lemma list_comp_Inl:
  assumes "\<And>x e. x \<in> set xs \<Longrightarrow> f x = Inl e \<Longrightarrow> e = err"
    and "\<exists>x \<in> set xs. \<exists>e. f x = Inl e"
  shows "list_comp f xs = Inl err"
  using assms
proof (induction xs)
  case Nil
  then show ?case by simp
next
  case (Cons x xs)
  show ?case
  proof (cases "f x")
    case (Inl e)
    with Cons.prems(1)[of x e] show ?thesis by simp
  next
    case (Inr y)
    with Cons.prems have "\<exists>x \<in> set xs. \<exists>e. f x = Inl e" by auto
    with Cons.IH Cons.prems(1) have "list_comp f xs = Inl err" by auto
    with Inr show ?thesis by simp
  qed
qed

lemma list_comp_Inl_only:
  "list_comp f xs = Inl e \<Longrightarrow> \<exists>x \<in> set xs. f x = Inl e"
  by (induction xs) (auto split: sum.splits)

lemma map_of_keyed:
  assumes "map fst xs = map int [0..<length xs]"
  shows "map_of xs j = (if 0 \<le> j \<and> j < int (length xs) then Some (snd (xs ! nat j)) else None)"
proof -
  have "xs = zip (map fst xs) (map snd xs)" by (simp add: zip_map_fst_snd)
  with assms have "xs = enumerate_py (map snd xs)" by (simp add: enumerate_py_def)
  then have "map_of xs j = map_of (enumerate_py (map snd xs)) j" by simp
  then show ?thesis by (auto simp: map_of_enumerate_py nat_less_iff)
qed

subsection \<open>The constructor\<close>

lemma create_faces_eq:
  "[] \<notin> set fc \<Longrightarrow>
   create_faces oid fc =
     Inr (map (\<lambda>(i, face). \<lparr>fid = oid + i, corners = face\<rparr>) (zip [0..<length fc] fc),
          oid + length fc)"
proof (induction fc arbitrary: oid)
  case Nil
  then show ?case by simp
next
  case (Cons a fc)
  have "[0..<Suc (length fc)] = 0 # map Suc [0..<length fc]"
    by (simp add: upt_conv_Cons map_Suc_upt del: upt_Suc)
  moreover from Cons.prems have "a \<noteq> []" "[] \<notin> set fc" by auto
  ultimately show ?case using Cons.IH
    by (simp add: Polygon_def zip_map1 split_def comp_def del: upt_Suc)
qed

lemma create_faces_empty: "[] \<in> set fc \<Longrightarrow> create_faces oid fc = Inl ValueError"
proof (induction fc arbitrary: oid)
  case Nil
  then show ?case by simp
next
  case (Cons a fc)
  show ?case
  proof (cases "a = []")
    case True
    then show ?thesis by (simp add: Polygon_def)
  next
    case False
    with Cons.prems have "[] \<in> set fc" by auto
    with False Cons.IH show ?thesis by (simp add: Polygon_def)
  qed
qed

lemma face_lookup_ok:
  assumes "\<forall>face\<in>set fl. \<forall>j\<in>set face. 0 \<le> j \<and> j < int (length cs)"
  shows "list_comp (list_comp (getitem (enumerate_py cs))) fl = Inr (map (map (\<lambda>j. cs ! nat j)) fl)"
proof (rule list_comp_Inr)
  fix face assume "face \<in> set fl"
  with assms have "\<And>j. j \<in> set face \<Longrightarrow> getitem (enumerate_py cs) j = Inr (cs ! nat j)"
    by (simp add: getitem_enumerate_py)
  then show "list_comp (getitem (enumerate_py cs)) face = Inr (map (\<lambda>j. cs ! nat j) face)"
    by (rule list_comp_Inr)
qed

lemma face_lookup_bad:
  assumes "\<exists>face\<in>set fl. \<exists>j\<in>set face. \<not> (0 \<le> j \<and> j < int (length cs))"
  shows "list_comp (list_comp (getitem (enumerate_py cs))) fl = Inl KeyError"
proof (rule list_comp_Inl)
  fix face e assume "list_comp (getitem (enumerate_py cs)) face = Inl e"
  then obtain j where "getitem (enumerate_py cs) j = Inl e"
    using list_comp_Inl_only by blast
  then show "e = KeyError" by (simp add: getitem_enumerate_py split: if_splits)
next
  from assms obtain face j where f: "face \<in> set fl" "j \<in> set face"
    and j: "\<not> (0 \<le> j \<and> j < int (length cs))" by blast
  have "list_comp (getitem (enumerate_py cs)) face = Inl KeyError"
  proof (rule list_comp_Inl)
    fix x e assume "getitem (enumerate_py cs) x = Inl e"
    then show "e = KeyError" by (simp add: getitem_enumerate_py split: if_splits)
  next
    from j have "getitem (enumerate_py cs) j = Inl KeyError"
      by (simp add: getitem_enumerate_py)
    with f show "\<exists>x\<in>set face. \<exists>e. getitem (enumerate_py cs) x = Inl e" by blast
  qed
  with f show "\<exists>x\<in>set fl. \<exists>e. list_comp (getitem (enumerate_py cs)) x = Inl e" by blast
qed

lemma Graph_ok:
  "Graph oid (map int [0..<length cs]) es (enumerate_py cs) =
     Inr \<lparr>vertices = zip (map int [0..<length cs])
                         (map (\<lambda>i. \<lparr>vid = oid + i, center = cs ! i\<rparr>) [0..<length cs]),
          graph_edges = es\<rparr>"
proof -
  have "list_comp (getitem (enumerate_py cs)) (map int [0..<length cs]) =
        Inr (map (\<lambda>j. cs ! nat j) (map int [0..<length cs]))"
    by (rule list_comp_Inr) (auto simp: getitem_enumerate_py)
  moreover have "map (\<lambda>j. cs ! nat j) (map int [0..<length cs]) = cs"
    by (simp add: comp_def map_nth)
  moreover have "map (\<lambda>(i, c). \<lparr>vid = oid + i, center = c\<rparr>) (zip [0..<length cs] cs) =
                 map (\<lambda>i. \<lparr>vid = oid + i, center = cs ! i\<rparr>) [0..<length cs]"
    by (rule nth_equalityI) simp_all
  ultimately show ?thesis by (simp add: Graph_def)
qed

lemma Polyhedron_init_ok:
  assumes "\<forall>face\<in>set fl. \<forall>j\<in>set face. 0 \<le> j \<and> j < int (length cs)"
    and nonempty: "[] \<notin> set fl"
  shows "Polyhedron_init cs fl =
     Inr \<lparr>vertex_coords = cs, vertex_indices = map int [0..<length cs],
          layout = enumerate_py cs, faces_list = fl,
          face_coords = map (map (\<lambda>j. cs ! nat j)) fl, edges = get_edges fl,
          faces = map (\<lambda>(i, face). \<lparr>fid = i, corners = map (\<lambda>j. cs ! nat j) face\<rparr>)
                      (zip [0..<length fl] fl),
          graph = \<lparr>vertices = zip (map int [0..<length cs])
                      (map (\<lambda>i. \<lparr>vid = length fl + i, center = cs ! i\<rparr>) [0..<length cs]),
                   graph_edges = get_edges fl\<rparr>,
          next_id = length fl + length cs\<rparr>"
proof -
  have "map (\<lambda>(i, face). \<lparr>fid = i, corners = face\<rparr>) (zip [0..<length fl] (map (map (\<lambda>j. cs ! nat j)) fl))
      = map (\<lambda>(i, face). \<lparr>fid = i, corners = map (\<lambda>j. cs ! nat j) face\<rparr>) (zip [0..<length fl] fl)"
    by (rule nth_equalityI) simp_all
  moreover from nonempty have "[] \<notin> set (map (map (\<lambda>j. cs ! nat j)) fl)"
    by auto
  ultimately show ?thesis
    by (simp add: Polyhedron_init_def face_lookup_ok[OF assms(1)] create_faces_eq Graph_ok Let_def)
qed

lemma Polyhedron_init_empty_face:
  assumes "\<forall>face\<in>set fl. \<forall>j\<in>set face. 0 \<le> j \<and> j < int (length cs)"
    and "[] \<in> set fl"
  shows "Polyhedron_init cs fl = Inl ValueError"
proof -
  from assms(2) have "[] \<in> set (map (map (\<lambda>j. cs ! nat j)) fl)"
    by force
  then show ?thesis
    by (simp add: Polyhedron_init_def face_lookup_ok[OF assms(1)] create_faces_empty Let_def)
qed

lemma Polyhedron_init_Inr:
  assumes "Polyhedron_init cs fl = Inr s"
  shows "\<forall>face\<in>set fl. \<forall>j\<in>set face. 0 \<le> j \<and> j < int (length cs)"
proof (rule ccontr)
  assume "\<not> ?thesis"
  then have "\<exists>face\<in>set fl. \<exists>j\<in>set face. \<not> (0 \<le> j \<and> j < int (length cs))" by simp
  then have "Polyhedron_init cs fl = Inl KeyError"
    by (simp add: Polyhedron_init_def face_lookup_bad)
  with assms show False by simp
qed

lemma Polyhedron_init_Inr_nonempty:
  assumes "Polyhedron_init cs fl = Inr s"
  shows "[] \<notin> set fl"
proof
  assume "[] \<in> set fl"
  with Polyhedron_init_Inr[OF assms] have "Polyhedron_init cs fl = Inl ValueError"
    by (rule Polyhedron_init_empty_face)
  with assms show False by simp
qed

lemma Polyhedron_init_errors:
  "Polyhedron_init cs fl = Inl e \<Longrightarrow> e = KeyError \<or> e = ValueError"
proof (cases "\<forall>face\<in>set fl. \<forall>j\<in>set face. 0 \<le> j \<and> j < int (length cs)")
  case True
  assume e: "Polyhedron_init cs fl = Inl e"
  show ?thesis
  proof (cases "[] \<in> set fl")
    case True
    with \<open>\<forall>face\<in>set fl. \<forall>j\<in>set face. 0 \<le> j \<and> j < int (length cs)\<close>
    have "Polyhedron_init cs fl = Inl ValueError" by (rule Polyhedron_init_empty_face)
    with e show ?thesis by simp
  next
    case False
    with Polyhedron_init_ok[OF True] e show ?thesis by simp
  qed
next
  case False
  assume e: "Polyhedron_init cs fl = Inl e"
  from False have "Polyhedron_init cs fl = Inl KeyError"
    by (simp add: Polyhedron_init_def face_lookup_bad)
  with e show ?thesis by simp
qed

lemma square_pyramid_value:
  "square_pyramid = Inr
    \<lparr>vertex_coords = [(1, 1, 0), (1, - 1, 0), (- 1, - 1, 0), (- 1, 1, 0), (0, 0, 2)],
     vertex_indices = [0, 1, 2, 3, 4],
     layout = [(0, 1, 1, 0), (1, 1, - 1, 0), (2, - 1, - 1, 0), (3, - 1, 1, 0), (4, 0, 0, 2)],
     faces_list = [[0, 1, 4], [1, 2, 4], [2, 3, 4], [3, 0, 4], [0, 1, 2, 3]],
     face_coords = [[(1, 1, 0), (1, - 1, 0), (0, 0, 2)], [(1, - 1, 0), (- 1, - 1, 0), (0, 0, 2)],
                    [(- 1, - 1, 0), (- 1, 1, 0), (0, 0, 2)], [(- 1, 1, 0), (1, 1, 0), (0, 0, 2)],
                    [(1, 1, 0), (1, - 1, 0), (- 1, - 1, 0), (- 1, 1, 0)]],
     edges = [(0, 1), (1, 4), (4, 0), (1, 2), (2, 4), (4, 1), (2, 3), (3, 4), (4, 2), (3, 0),
              (0, 4), (4, 3), (0, 1), (1, 2), (2, 3), (3, 0)],
     faces = [\<lparr>fid = 0, corners = [(1, 1, 0), (1, - 1, 0), (0, 0, 2)]\<rparr>,
              \<lparr>fid = 1, corners = [(1, - 1, 0), (- 1, - 1, 0), (0, 0, 2)]\<rparr>,
              \<lparr>fid = 2, corners = [(- 1, - 1, 0), (- 1, 1, 0), (0, 0, 2)]\<rparr>,
              \<lparr>fid = 3, corners = [(- 1, 1, 0), (1, 1, 0), (0, 0, 2)]\<rparr>,
              \<lparr>fid = 4, corners = [(1, 1, 0), (1, - 1, 0), (- 1, - 1, 0), (- 1, 1, 0)]\<rparr>],
     graph = \<lparr>vertices = [(0, \<lparr>vid = 5, center = (1, 1, 0)\<rparr>), (1, \<lparr>vid = 6, center = (1, - 1, 0)\<rparr>),
                          (2, \<lparr>vid = 7, center = (- 1, - 1, 0)\<rparr>), (3, \<lparr>vid = 8, center = (- 1, 1, 0)\<rparr>),
                          (4, \<lparr>vid = 9, center = (0, 0, 2)\<rparr>)],
              graph_edges = [(0, 1), (1, 4), (4, 0), (1, 2), (2, 4), (4, 1), (2, 3), (3, 4), (4, 2),
                             (3, 0), (0, 4), (4, 3), (0, 1), (1, 2), (2, 3), (3, 0)]\<rparr>,
     next_id = 10\<rparr>"
  by code_simp

subsection \<open>Edge derivation\<close>

lemma zip_rotate_cyclic_pairs: "zip face (drop 1 face @ take 1 face) = cyclic_pairs face"
proof (rule nth_equalityI)
  show "length (zip face (drop 1 face @ take 1 face)) = length (cyclic_pairs face)"
    by (cases face) (simp_all add: cyclic_pairs_def)
next
  fix i assume "i < length (zip face (drop 1 face @ take 1 face))"
  then have i: "i < length face" by simp
  have len: "length (drop 1 face @ take 1 face) = length face"
    by (cases face) simp_all
  have "(drop 1 face @ take 1 face) ! i = face ! ((i + 1) mod length face)"
  proof (cases "i + 1 < length face")
    case True
    then show ?thesis by (auto simp: nth_append)
  next
    case False
    with i have "i + 1 = length face" by simp
    then have "i = length face - 1" "(i + 1) mod length face = 0" by simp_all
    with i show ?thesis by (simp add: nth_append)
  qed
  with i len show "zip face (drop 1 face @ take 1 face) ! i = cyclic_pairs face ! i"
    by (simp add: cyclic_pairs_def)
qed

text \<open>
  Claim C5. For every face list, \<open>get_edges\<close> returns the concatenation, in face-list
  order, of the cyclic adjacent pairs of each face; nothing is deduplicated, so the
  result has as many edges as the faces have indices in total.
\<close>

theorem get_edges_cyclic_pairs:
  "get_edges fl = concat (map cyclic_pairs fl) \<and>
   length (get_edges fl) = sum_list (map length fl)"
proof
  show "get_edges fl = concat (map cyclic_pairs fl)"
    by (induction fl) (simp_all add: zip_rotate_cyclic_pairs del: One_nat_def)
  show "length (get_edges fl) = sum_list (map length fl)"
  proof (induction fl)
    case Nil
    show ?case by simp
  next
    case (Cons face fl)
    have "length (drop 1 face @ take 1 face) = length face"
      by (cases face) simp_all
    with Cons show ?case by simp
  qed
qed

subsection \<open>Malformed face data\<close>

text \<open>
  Claim C2, as amended. A face index outside \<open>[0, len(vertex_coords))\<close> makes the
  constructor fail, with the \<open>KeyError\<close> of the dictionary lookup \<^verbatim>\<open>self.layout[j]\<close>.
\<close>

theorem Polyhedron_init_bad_index:
  "\<exists>face\<in>set fl. \<exists>j\<in>set face. \<not> (0 \<le> j \<and> j < int (length cs)) \<Longrightarrow>
   Polyhedron_init cs fl = Inl KeyError"
proof -
  assume "\<exists>face\<in>set fl. \<exists>j\<in>set face. \<not> (0 \<le> j \<and> j < int (length cs))"
  then have "list_comp (list_comp (getitem (enumerate_py cs))) fl = Inl KeyError"
    by (rule face_lookup_bad)
  then show "Polyhedron_init cs fl = Inl KeyError"
    unfolding Polyhedron_init_def Let_def by simp
qed

theorem Polyhedron_init_bad_index_witness:
  "Polyhedron_init [(1::int, 1::int, 0::int), (1, - 1, 0), (- 1, - 1, 0), (- 1, 1, 0), (0, 0, 2)]
     [[0, 1, 4], [1, 2, 99]] = Inl KeyError"
  using Polyhedron_init_bad_index
    [of "[[0, 1, 4], [1, 2, 99]]" "[(1::int, 1::int, 0::int), (1, - 1, 0), (- 1, - 1, 0), (- 1, 1, 0), (0, 0, 2)]"]
  by simp

text \<open>
  Claim C2 as stated fails: index 99 on the 5-vertex table of the square pyramid raises
  \<open>KeyError\<close>, not \<open>InvalidFaceIndexError\<close>.
\<close>

theorem Polyhedron_init_index_99:
  "Polyhedron_init [(1::int, 1::int, 0::int), (1, - 1, 0), (- 1, - 1, 0), (- 1, 1, 0), (0, 0, 2)]
     [[0, 1, 99]] = Inl KeyError \<and>
   Polyhedron_init [(1::int, 1::int, 0::int), (1, - 1, 0), (- 1, - 1, 0), (- 1, 1, 0), (0, 0, 2)]
     [[0, 1, 99]] \<noteq> Inl InvalidFaceIndexError"
  by code_simp

text \<open>
  Claim C3, as amended. The constructor does not compare the length of a face with 3: it
  never raises \<open>DegenerateFaceError\<close>, and a face list whose indices are all in range and
  whose faces each have at least one index is accepted, also when a face has fewer than 3
  indices, each face getting a polygon with as many corners as it has indices.
\<close>

theorem Polyhedron_init_no_length_check:
  "Polyhedron_init cs fl \<noteq> Inl DegenerateFaceError \<and>
   (list_all (\<lambda>face. face \<noteq> [] \<and> list_all (\<lambda>j. 0 \<le> j \<and> j < int (length cs)) face) fl \<longrightarrow>
    (\<exists>s. Polyhedron_init cs fl = Inr s \<and> faces_list s = fl \<and> edges s = get_edges fl \<and>
         map corners (faces s) = map (map (\<lambda>j. cs ! nat j)) fl))"
proof (intro conjI impI)
  show "Polyhedron_init cs fl \<noteq> Inl DegenerateFaceError"
    using Polyhedron_init_errors by force
next
  assume "list_all (\<lambda>face. face \<noteq> [] \<and> list_all (\<lambda>j. 0 \<le> j \<and> j < int (length cs)) face) fl"
  then have rng: "\<forall>face\<in>set fl. \<forall>j\<in>set face. 0 \<le> j \<and> j < int (length cs)"
    and ne: "[] \<notin> set fl"
    by (auto simp: list_all_iff)
  have "map corners (map (\<lambda>(i, face). \<lparr>fid = i, corners = map (\<lambda>j. cs ! nat j) face\<rparr>)
                      (zip [0..<length fl] fl)) = map (map (\<lambda>j. cs ! nat j)) fl"
    by (rule nth_equalityI) simp_all
  then show "\<exists>s. Polyhedron_init cs fl = Inr s \<and> faces_list s = fl \<and> edges s = get_edges fl \<and>
         map corners (faces s) = map (map (\<lambda>j. cs ! nat j)) fl"
    by (simp add: Polyhedron_init_ok[OF rng ne])
qed

theorem Polyhedron_init_no_length_check_witness:
  "Polyhedron_init [(0::int, 0::int, 0::int), (1, 0, 0), (0, 1, 0)] [[0, 1, 2], [2, 1]]
     \<noteq> Inl DegenerateFaceError \<and>
   (\<exists>s. Polyhedron_init [(0::int, 0::int, 0::int), (1, 0, 0), (0, 1, 0)] [[0, 1, 2], [2, 1]] = Inr s \<and>
        faces_list s = [[0, 1, 2], [2, 1]] \<and>
        edges s = [(0, 1), (1, 2), (2, 0), (2, 1), (1, 2)] \<and>
        map corners (faces s) = [[(0, 0, 0), (1, 0, 0), (0, 1, 0)], [(0, 1, 0), (1, 0, 0)]])"
  using Polyhedron_init_no_length_check
    [of "[(0::int, 0::int, 0::int), (1, 0, 0), (0, 1, 0)]" "[[0, 1, 2], [2, 1]]"]
  by simp

text \<open>
  Claim C3 as stated fails: a face of two indices is accepted, and its polygon and its
  edges are built.
\<close>

theorem Polyhedron_init_short_face:
  "Polyhedron_init [(0::int, 0::int, 0::int), (1, 0, 0)] [[0, 1]] =
     Inr \<lparr>vertex_coords = [(0, 0, 0), (1, 0, 0)], vertex_indices = [0, 1],
          layout = [(0, 0, 0, 0), (1, 1, 0, 0)], faces_list = [[0, 1]],
          face_coords = [[(0, 0, 0), (1, 0, 0)]], edges = [(0, 1), (1, 0)],
          faces = [\<lparr>fid = 0, corners = [(0, 0, 0), (1, 0, 0)]\<rparr>],
          graph = \<lparr>vertices = [(0, \<lparr>vid = 1, center = (0, 0, 0)\<rparr>),
                               (1, \<lparr>vid = 2, center = (1, 0, 0)\<rparr>)],
                   graph_edges = [(0, 1), (1, 0)]\<rparr>,
          next_id = 3\<rparr> \<and>
   Polyhedron_init [(0::int, 0::int, 0::int), (1, 0, 0)] [[0, 1]] \<noteq> Inl DegenerateFaceError"
  by code_simp

subsection \<open>The synchronization step\<close>

lemma new_vertex_coords_ok:
  assumes "map fst (vertices g) = map int [0..<length (vertices g)]"
  shows "list_comp (get_center g) (map fst (vertices g)) = Inr (map (center \<circ> snd) (vertices g))"
proof -
  have "list_comp (get_center g) (map fst (vertices g)) =
        Inr (map (\<lambda>j. center (snd (vertices g ! nat j))) (map fst (vertices g)))"
  proof (rule list_comp_Inr)
    fix v assume "v \<in> set (map fst (vertices g))"
    with assms have "0 \<le> v \<and> v < int (length (vertices g))" by auto
    then show "get_center g v = Inr (center (snd (vertices g ! nat v)))"
      by (simp add: get_center_def getitem_def map_of_keyed[OF assms])
  qed
  moreover have "map (\<lambda>j. center (snd (vertices g ! nat j))) (map fst (vertices g)) =
                 map (center \<circ> snd) (vertices g)"
    by (subst assms) (rule nth_equalityI, simp_all)
  ultimately show ?thesis by simp
qed

lemma get_center_keyed:
  assumes "map fst (vertices g) = map int [0..<length (vertices g)]"
    and "0 \<le> j \<and> j < int (length (vertices g))"
  shows "get_center g j = Inr (center (snd (vertices g ! nat j)))"
  using assms(2) by (simp add: get_center_def getitem_def map_of_keyed[OF assms(1)])

lemma extract_face_coords_ok:
  assumes "wf_polyhedron s"
  shows "extract_face_coords s =
         Inr (map (map (\<lambda>j. center (snd (vertices (graph s) ! nat j)))) (faces_list s))"
proof -
  from assms have keys: "map fst (vertices (graph s)) = map int [0..<length (vertices (graph s))]"
    and rng: "\<forall>face\<in>set (faces_list s). \<forall>j\<in>set face.
                0 \<le> j \<and> j < int (length (map (center \<circ> snd) (vertices (graph s))))"
    by (auto simp: wf_polyhedron_def list_all_iff)
  have "list_comp (list_comp (getitem (enumerate_py (map (center \<circ> snd) (vertices (graph s))))))
          (faces_list s) =
        Inr (map (map (\<lambda>j. map (center \<circ> snd) (vertices (graph s)) ! nat j)) (faces_list s))"
    by (rule face_lookup_ok[OF rng])
  moreover have "map (map (\<lambda>j. map (center \<circ> snd) (vertices (graph s)) ! nat j)) (faces_list s) =
                 map (map (\<lambda>j. center (snd (vertices (graph s) ! nat j)))) (faces_list s)"
    using rng by (auto simp: nat_less_iff)
  ultimately show ?thesis
    by (simp add: extract_face_coords_def new_vertex_coords_ok[OF keys])
qed

lemma match_points_eq:
  "length fs = length ns \<Longrightarrow>
   match_points fs ns = map (\<lambda>(f, n). f\<lparr>corners := corners n\<rparr>) (zip fs ns)"
  by (induction fs ns rule: list_induct2) simp_all

lemma match_points_created:
  assumes "length fs = length fc"
  shows "match_points fs (map (\<lambda>(i, face). \<lparr>fid = oid + i, corners = face\<rparr>) (zip [0..<length fc] fc)) =
         map (\<lambda>(f, face). f\<lparr>corners := face\<rparr>) (zip fs fc)"
proof -
  let ?new = "map (\<lambda>(i, face). \<lparr>fid = oid + i, corners = face\<rparr>) (zip [0..<length fc] fc)"
  have "match_points fs ?new = map (\<lambda>(f, n). f\<lparr>corners := corners n\<rparr>) (zip fs ?new)"
    using assms by (intro match_points_eq) simp
  also have "\<dots> = map (\<lambda>(f, face). f\<lparr>corners := face\<rparr>) (zip fs fc)"
    using assms by (intro nth_equalityI) simp_all
  finally show ?thesis .
qed

lemma update_faces_ok:
  assumes "wf_polyhedron s"
  shows "update_faces s =
         Inr (s\<lparr>faces := synced_faces s, next_id := next_id s + length (faces_list s)\<rparr>)"
proof -
  let ?fc = "map (map (\<lambda>j. center (snd (vertices (graph s) ! nat j)))) (faces_list s)"
  from assms have len: "length (faces s) = length ?fc" by (simp add: wf_polyhedron_def)
  from assms have "[] \<notin> set (faces_list s)" by (simp add: wf_polyhedron_def)
  then have ne: "[] \<notin> set ?fc" by auto
  have "map (\<lambda>(f, face). f\<lparr>corners := face\<rparr>) (zip (faces s) ?fc) = synced_faces s"
    unfolding synced_faces_def using len by (intro nth_equalityI) simp_all
  with match_points_created[OF len, of "next_id s"]
  have "match_points (faces s)
          (map (\<lambda>(i, face). \<lparr>fid = next_id s + i, corners = face\<rparr>) (zip [0..<length ?fc] ?fc)) =
        synced_faces s" by simp
  then show ?thesis
    by (simp add: update_faces_def extract_face_coords_ok[OF assms] create_faces_eq[OF ne])
qed

lemma wf_update_faces:
  assumes "wf_polyhedron s" "update_faces s = Inr s'"
  shows "wf_polyhedron s'"
proof -
  from assms have "s' = s\<lparr>faces := synced_faces s, next_id := next_id s + length (faces_list s)\<rparr>"
    by (simp add: update_faces_ok)
  with assms(1) show ?thesis by (simp add: wf_polyhedron_def synced_faces_def)
qed

lemma wf_move_vertex: "wf_polyhedron s \<Longrightarrow> wf_polyhedron (move_vertex v p s)"
proof -
  assume wf: "wf_polyhedron s"
  have "map fst (map (\<lambda>(k, dot). if k = v then (k, dot\<lparr>center := p\<rparr>) else (k, dot)) (vertices (graph s)))
        = map fst (vertices (graph s))"
    by (induction "vertices (graph s)") (auto simp: split_def)
  with wf show ?thesis by (simp add: wf_polyhedron_def move_vertex_def)
qed

lemma wf_init:
  assumes "Polyhedron_init cs fl = Inr s"
  shows "wf_polyhedron s \<and> vertex_coords s = cs \<and> faces_list s = fl"
proof -
  note rng = Polyhedron_init_Inr[OF assms]
  note ne = Polyhedron_init_Inr_nonempty[OF assms]
  from assms Polyhedron_init_ok[OF rng ne] show ?thesis
    using rng ne by (auto simp: wf_polyhedron_def list_all_iff)
qed

lemma constructed_wf:
  "constructed cs fl s \<Longrightarrow> wf_polyhedron s \<and> vertex_coords s = cs \<and> faces_list s = fl"
proof (induction rule: constructed.induct)
  case (init coords fl s)
  then show ?case by (rule wf_init)
next
  case (move coords fl s v p)
  then show ?case by (simp add: wf_move_vertex) (simp add: move_vertex_def)
next
  case (sync coords fl s s')
  then have "s' = s\<lparr>faces := synced_faces s, next_id := next_id s + length (faces_list s)\<rparr>"
    by (simp add: update_faces_ok)
  with sync show ?case by (auto intro: wf_update_faces)
qed

lemma synced_faces_twice:
  assumes "length (faces s) = length (faces_list s)"
  shows "synced_faces (s\<lparr>faces := synced_faces s, next_id := n\<rparr>) = synced_faces s"
  using assms unfolding synced_faces_def by (intro nth_equalityI) simp_all

lemma synced_faces_fid: 
  assumes "length (faces s) = length (faces_list s)"
  shows "map fid (synced_faces s) = map fid (faces s)"
  using assms unfolding synced_faces_def by (intro nth_equalityI) simp_all

lemma synced_faces_corners: 
  assumes "length (faces s) = length (faces_list s)"
  shows "map corners (synced_faces s) =
         map (map (\<lambda>j. center (snd (vertices (graph s) ! nat j)))) (faces_list s)"
  using assms unfolding synced_faces_def by (intro nth_equalityI) simp_all

lemma update_faces_vertex_coords:
  "update_faces (s\<lparr>vertex_coords := vc\<rparr>) =
     (case update_faces s of Inl e \<Rightarrow> Inl e | Inr s' \<Rightarrow> Inr (s'\<lparr>vertex_coords := vc\<rparr>))"
  by (simp add: update_faces_def extract_face_coords_def split: sum.splits prod.splits)

lemma square_pyramid_constructed:
  "square_pyramid = Inr s0 \<Longrightarrow>
   constructed [(1, 1, 0), (1, - 1, 0), (- 1, - 1, 0), (- 1, 1, 0), (0, 0, 2)]
     [[0, 1, 4], [1, 2, 4], [2, 3, 4], [3, 0, 4], [0, 1, 2, 3]] (move_vertex 4 (0, 0, 3) s0)"
  unfolding square_pyramid_def by (intro constructed.move constructed.init)

text \<open>
  Claim C4. On every constructed polyhedron the synchronization step succeeds, and a second
  run right after it (no vertex moved in between) succeeds too and leaves the same face
  polygons: the state after the second run is the state after the first, up to the count
  of objects created.
\<close>

theorem update_faces_idempotent:
  "constructed cs fl s \<Longrightarrow>
   \<exists>s1 s2. update_faces s = Inr s1 \<and> update_faces s1 = Inr s2 \<and>
     faces s2 = faces s1 \<and> s2 = s1\<lparr>next_id := next_id s2\<rparr>"
proof -
  assume "constructed cs fl s"
  then have wf: "wf_polyhedron s" by (simp add: constructed_wf)
  let ?s1 = "s\<lparr>faces := synced_faces s, next_id := next_id s + length (faces_list s)\<rparr>"
  have 1: "update_faces s = Inr ?s1" by (rule update_faces_ok[OF wf])
  then have wf1: "wf_polyhedron ?s1" by (rule wf_update_faces[OF wf])
  from wf have len: "length (faces s) = length (faces_list s)" by (simp add: wf_polyhedron_def)
  let ?s2 = "?s1\<lparr>faces := synced_faces ?s1, next_id := next_id ?s1 + length (faces_list ?s1)\<rparr>"
  have 2: "update_faces ?s1 = Inr ?s2" by (rule update_faces_ok[OF wf1])
  have "faces ?s2 = faces ?s1" by (simp add: synced_faces_twice[OF len])
  moreover from this have "?s2 = ?s1\<lparr>next_id := next_id ?s2\<rparr>" by simp
  ultimately show ?thesis using 1 2 by blast
qed

theorem update_faces_idempotent_witness:
  "\<exists>s0 s1 s2. square_pyramid = Inr s0 \<and> update_faces (move_vertex 4 (0, 0, 3) s0) = Inr s1 \<and>
     update_faces s1 = Inr s2 \<and> faces s2 = faces s1 \<and> s2 = s1\<lparr>next_id := next_id s2\<rparr> \<and>
     map corners (faces s1) =
       [[(1, 1, 0), (1, - 1, 0), (0, 0, 3)], [(1, - 1, 0), (- 1, - 1, 0), (0, 0, 3)],
        [(- 1, - 1, 0), (- 1, 1, 0), (0, 0, 3)], [(- 1, 1, 0), (1, 1, 0), (0, 0, 3)],
        [(1, 1, 0), (1, - 1, 0), (- 1, - 1, 0), (- 1, 1, 0)]]"
proof -
  obtain s0 where s0: "square_pyramid = Inr s0" by (simp add: square_pyramid_value)
  from update_faces_idempotent[OF square_pyramid_constructed[OF s0]]
  obtain s1 s2 where s: "update_faces (move_vertex 4 (0, 0, 3) s0) = Inr s1"
    "update_faces s1 = Inr s2" "faces s2 = faces s1" "s2 = s1\<lparr>next_id := next_id s2\<rparr>" by blast
  have "(case square_pyramid of Inl e \<Rightarrow> Inl e
         | Inr s0 \<Rightarrow> (case update_faces (move_vertex 4 (0, 0, 3) s0) of Inl e \<Rightarrow> Inl e
                       | Inr s1 \<Rightarrow> Inr (map corners (faces s1)))) =
       Inr [[(1, 1, 0), (1, - 1, 0), (0, 0, 3)], [(1, - 1, 0), (- 1, - 1, 0), (0, 0, 3)],
        [(- 1, - 1, 0), (- 1, 1, 0), (0, 0, 3)], [(- 1, 1, 0), (1, 1, 0), (0, 0, 3)],
        [(1, 1, 0), (1, - 1, 0), (- 1, - 1, 0), (- 1, 1, 0)]]"
    by code_simp
  then have "map corners (faces s1) =
       [[(1, 1, 0), (1, - 1, 0), (0, 0, 3)], [(1, - 1, 0), (- 1, - 1, 0), (0, 0, 3)],
        [(- 1, - 1, 0), (- 1, 1, 0), (0, 0, 3)], [(- 1, 1, 0), (1, 1, 0), (0, 0, 3)],
        [(1, 1, 0), (1, - 1, 0), (- 1, - 1, 0), (- 1, 1, 0)]]"
    unfolding s0 sum.case s(1) by simp
  with s0 s show ?thesis
    by (intro exI[of _ s0] exI[of _ s1] exI[of _ s2] conjI)
qed

text \<open>
  Claim C9. One run of the synchronization step changes the \<^verbatim>\<open>faces\<close> group (and creates
  temporary objects) and nothing else: the vertex table, the face list, the edge list and
  the graph with its vertex objects are the same, and the group holds the same polygon
  objects, in the same order.
\<close>

theorem update_faces_frame:
  "constructed cs fl s \<Longrightarrow>
   \<exists>s'. update_faces s = Inr s' \<and>
     s' = s\<lparr>faces := faces s', next_id := next_id s'\<rparr> \<and>
     map fid (faces s') = map fid (faces s) \<and>
     vertex_coords s' = vertex_coords s \<and> faces_list s' = faces_list s \<and>
     edges s' = edges s \<and> graph s' = graph s"
proof -
  assume "constructed cs fl s"
  then have wf: "wf_polyhedron s" by (simp add: constructed_wf)
  then have len: "length (faces s) = length (faces_list s)" by (simp add: wf_polyhedron_def)
  show ?thesis
    by (simp add: update_faces_ok[OF wf] synced_faces_fid[OF len])
qed

theorem update_faces_frame_witness:
  "\<exists>s0 s'. square_pyramid = Inr s0 \<and> update_faces (move_vertex 4 (0, 0, 3) s0) = Inr s' \<and>
     s' = (move_vertex 4 (0, 0, 3) s0)\<lparr>faces := faces s', next_id := next_id s'\<rparr> \<and>
     map fid (faces s') = map fid (faces (move_vertex 4 (0, 0, 3) s0)) \<and>
     vertex_coords s' = vertex_coords (move_vertex 4 (0, 0, 3) s0) \<and>
     faces_list s' = faces_list (move_vertex 4 (0, 0, 3) s0) \<and>
     edges s' = edges (move_vertex 4 (0, 0, 3) s0) \<and>
     graph s' = graph (move_vertex 4 (0, 0, 3) s0) \<and>
     map fid (faces s') = [0, 1, 2, 3, 4] \<and>
     map (vid \<circ> snd) (vertices (graph s')) = [5, 6, 7, 8, 9]"
proof -
  obtain s0 where s0: "square_pyramid = Inr s0" by (simp add: square_pyramid_value)
  from update_faces_frame[OF square_pyramid_constructed[OF s0]]
  obtain s' where s: "update_faces (move_vertex 4 (0, 0, 3) s0) = Inr s'"
    "s' = (move_vertex 4 (0, 0, 3) s0)\<lparr>faces := faces s', next_id := next_id s'\<rparr>"
    "map fid (faces s') = map fid (faces (move_vertex 4 (0, 0, 3) s0))"
    "vertex_coords s' = vertex_coords (move_vertex 4 (0, 0, 3) s0)"
    "faces_list s' = faces_list (move_vertex 4 (0, 0, 3) s0)"
    "edges s' = edges (move_vertex 4 (0, 0, 3) s0)"
    "graph s' = graph (move_vertex 4 (0, 0, 3) s0)" by blast
  have "(case square_pyramid of Inl e \<Rightarrow> Inl e
         | Inr s0 \<Rightarrow> (case update_faces (move_vertex 4 (0, 0, 3) s0) of Inl e \<Rightarrow> Inl e
                       | Inr s1 \<Rightarrow> Inr (map fid (faces s1), map (vid \<circ> snd) (vertices (graph s1))))) =
       Inr ([0, 1, 2, 3, 4], [5, 6, 7, 8, 9])"
    by code_simp
  then have "map fid (faces s') = [0, 1, 2, 3, 4]"
    "map (vid \<circ> snd) (vertices (graph s')) = [5, 6, 7, 8, 9]"
    unfolding s0 sum.case s(1) by simp_all
  with s0 s show ?thesis
    by (intro exI[of _ s0] exI[of _ s'] conjI)
qed

text \<open>
  Claim C10. After a run of the synchronization step, corner \<open>k\<close> of polygon \<open>f\<close> is the
  current center of the graph vertex \<open>faces_list[f][k]\<close>. The stored \<^verbatim>\<open>vertex_coords\<close> is
  the table given to the constructor, before and after every run, and the run does not
  depend on it.
\<close>

theorem update_faces_reads_centers:
  "constructed cs fl s \<Longrightarrow>
   vertex_coords s = cs \<and>
   (\<exists>s'. update_faces s = Inr s' \<and> vertex_coords s' = cs \<and>
      length (faces s') = length (faces_list s) \<and>
      (\<forall>f k. f < length (faces_list s) \<and> k < length (faces_list s ! f) \<longrightarrow>
         length (corners (faces s' ! f)) = length (faces_list s ! f) \<and>
         get_center (graph s) (faces_list s ! f ! k) = Inr (corners (faces s' ! f) ! k)) \<and>
      (\<forall>vc. update_faces (s\<lparr>vertex_coords := vc\<rparr>) = Inr (s'\<lparr>vertex_coords := vc\<rparr>)))"
proof -
  assume c: "constructed cs fl s"
  then have wf: "wf_polyhedron s" and vc: "vertex_coords s = cs" by (simp_all add: constructed_wf)
  then have len: "length (faces s) = length (faces_list s)" by (simp add: wf_polyhedron_def)
  let ?s' = "s\<lparr>faces := synced_faces s, next_id := next_id s + length (faces_list s)\<rparr>"
  have upd: "update_faces s = Inr ?s'" by (rule update_faces_ok[OF wf])
  have crn: "map corners (faces ?s') =
             map (map (\<lambda>j. center (snd (vertices (graph s) ! nat j)))) (faces_list s)"
    by (simp add: synced_faces_corners[OF len])
  have "length (corners (faces ?s' ! f)) = length (faces_list s ! f) \<and>
        get_center (graph s) (faces_list s ! f ! k) = Inr (corners (faces ?s' ! f) ! k)"
    if fk: "f < length (faces_list s)" "k < length (faces_list s ! f)" for f k
  proof -
    from fk len have "corners (faces ?s' ! f) = map corners (faces ?s') ! f"
      by (simp add: synced_faces_def)
    with crn fk have eq: "corners (faces ?s' ! f) =
        map (\<lambda>j. center (snd (vertices (graph s) ! nat j))) (faces_list s ! f)" by simp
    from fk have "faces_list s ! f ! k \<in> set (faces_list s ! f)" "faces_list s ! f \<in> set (faces_list s)"
      by simp_all
    with wf have "0 \<le> faces_list s ! f ! k \<and> faces_list s ! f ! k < int (length (vertices (graph s)))"
      unfolding wf_polyhedron_def list_all_iff by blast
    moreover from wf have "map fst (vertices (graph s)) = map int [0..<length (vertices (graph s))]"
      by (simp add: wf_polyhedron_def)
    ultimately have "get_center (graph s) (faces_list s ! f ! k) =
        Inr (center (snd (vertices (graph s) ! nat (faces_list s ! f ! k))))"
      by (simp add: get_center_keyed)
    with eq fk show ?thesis by simp
  qed
  moreover have "length (faces ?s') = length (faces_list s)"
    using len by (simp add: synced_faces_def)
  moreover have "\<forall>vc. update_faces (s\<lparr>vertex_coords := vc\<rparr>) = Inr (?s'\<lparr>vertex_coords := vc\<rparr>)"
    by (simp add: update_faces_vertex_coords upd)
  ultimately show ?thesis using upd vc by auto
qed

theorem update_faces_reads_centers_witness:
  "\<exists>s0 s'. square_pyramid = Inr s0 \<and>
     vertex_coords (move_vertex 4 (0, 0, 3) s0) =
       [(1, 1, 0), (1, - 1, 0), (- 1, - 1, 0), (- 1, 1, 0), (0, 0, 2)] \<and>
     update_faces (move_vertex 4 (0, 0, 3) s0) = Inr s' \<and>
     vertex_coords s' = [(1, 1, 0), (1, - 1, 0), (- 1, - 1, 0), (- 1, 1, 0), (0, 0, 2)] \<and>
     get_center (graph (move_vertex 4 (0, 0, 3) s0))
       (faces_list (move_vertex 4 (0, 0, 3) s0) ! 0 ! 2) = Inr (corners (faces s' ! 0) ! 2) \<and>
     corners (faces s' ! 0) ! 2 = (0, 0, 3) \<and>
     update_faces ((move_vertex 4 (0, 0, 3) s0)\<lparr>vertex_coords := []\<rparr>) =
       Inr (s'\<lparr>vertex_coords := []\<rparr>)"
proof -
  obtain s0 where s0: "square_pyramid = Inr s0" by (simp add: square_pyramid_value)
  let ?s = "move_vertex 4 (0, 0, 3) s0"
  from update_faces_reads_centers[OF square_pyramid_constructed[OF s0]]
  obtain s' where vc: "vertex_coords ?s = [(1, 1, 0), (1, - 1, 0), (- 1, - 1, 0), (- 1, 1, 0), (0, 0, 2)]"
    and s: "update_faces ?s = Inr s'"
      "vertex_coords s' = [(1, 1, 0), (1, - 1, 0), (- 1, - 1, 0), (- 1, 1, 0), (0, 0, 2)]"
    and corner: "\<forall>f k. f < length (faces_list ?s) \<and> k < length (faces_list ?s ! f) \<longrightarrow>
         length (corners (faces s' ! f)) = length (faces_list ?s ! f) \<and>
         get_center (graph ?s) (faces_list ?s ! f ! k) = Inr (corners (faces s' ! f) ! k)"
    and indep: "\<forall>vc. update_faces (?s\<lparr>vertex_coords := vc\<rparr>) = Inr (s'\<lparr>vertex_coords := vc\<rparr>)"
    by blast
  have fl: "faces_list ?s = [[0, 1, 4], [1, 2, 4], [2, 3, 4], [3, 0, 4], [0, 1, 2, 3]]"
    using constructed_wf[OF square_pyramid_constructed[OF s0]] by simp
  from corner[rule_format, of 0 2] fl
  have c02: "get_center (graph ?s) (faces_list ?s ! 0 ! 2) = Inr (corners (faces s' ! 0) ! 2)"
    by simp
  have "(case square_pyramid of Inl e \<Rightarrow> Inl e
         | Inr s0 \<Rightarrow> (case update_faces (move_vertex 4 (0, 0, 3) s0) of Inl e \<Rightarrow> Inl e
                       | Inr s1 \<Rightarrow> Inr (corners (faces s1 ! 0) ! 2))) = Inr (0, 0, 3)"
    by code_simp
  then have "corners (faces s' ! 0) ! 2 = (0, 0, 3)"
    unfolding s0 sum.case s(1) by simp
  with s0 vc s c02 indep[rule_format, of "[]"] show ?thesis
    by (intro exI[of _ s0] exI[of _ s'] conjI)
qed

subsection \<open>Face extraction from a hull state\<close>

lemma first_seen_snoc:
  "first_seen (xs @ [x]) = (if x \<in> set xs then first_seen xs else first_seen xs @ [x])"
  by (simp add: first_seen_def)

lemma set_first_seen: "set (first_seen xs) = set xs"
  by (simp add: first_seen_def)

lemma distinct_first_seen: "distinct (first_seen xs)"
  by (simp add: first_seen_def)

lemma first_seen_append:
  "first_seen (xs @ ys) = first_seen xs @ filter (\<lambda>y. y \<notin> set xs) (first_seen ys)"
proof (induction ys rule: rev_induct)
  case Nil
  show ?case by (simp add: first_seen_def)
next
  case (snoc y ys)
  have "first_seen (xs @ ys @ [y]) = first_seen ((xs @ ys) @ [y])" by simp
  also have "\<dots> = (if y \<in> set (xs @ ys) then first_seen (xs @ ys) else first_seen (xs @ ys) @ [y])"
    by (rule first_seen_snoc)
  finally show ?case using snoc by (auto simp: first_seen_snoc)
qed

lemma set_iteration_first_seen: "set_iteration first_seen"
  by (simp add: set_iteration_def set_first_seen distinct_first_seen)

lemma set_iteration_slot_order: "set_iteration slot_order"
  by (simp add: set_iteration_def slot_order_def set_first_seen distinct_first_seen)

lemma map_of_numbered:
  "map_of (zip ps (map int [k..<k + length ps])) p =
     (if p \<in> set ps then Some (int k + position ps p) else None)"
proof (induction ps arbitrary: k)
  case Nil
  show ?case by simp
next
  case (Cons a ps)
  have "[k..<k + length (a # ps)] = k # [Suc k..<Suc k + length ps]"
    by (subst upt_rec) simp
  then show ?case using Cons[of "Suc k"] by (simp del: upt_Suc)
qed

lemma map_of_table:
  "map_of (zip ps (map int [0..<length ps])) p =
     (if p \<in> set ps then Some (position ps p) else None)"
  using map_of_numbered[of ps 0 p] by simp

lemma position_append: "p \<in> set xs \<Longrightarrow> position (xs @ ys) p = position xs p"
  by (induction xs) auto

lemma position_bounds: "p \<in> set xs \<Longrightarrow> 0 \<le> position xs p \<and> position xs p < int (length xs)"
  by (induction xs) auto

lemma position_nth: "p \<in> set xs \<Longrightarrow> xs ! nat (position xs p) = p"
proof (induction xs)
  case Nil
  then show ?case by simp
next
  case (Cons a xs)
  show ?case
  proof (cases "p = a")
    case True
    then show ?thesis by simp
  next
    case False
    with Cons.prems have p: "p \<in> set xs" by simp
    then have "0 \<le> position xs p" by (simp add: position_bounds)
    then have "nat (1 + position xs p) = Suc (nat (position xs p))" by simp
    with False Cons.IH[OF p] show ?thesis by simp
  qed
qed

lemma position_inj: "inj_on (position xs) (set xs)"
  by (rule inj_onI) (metis position_nth)

lemma visit_point_table:
  "visit_point p (table_of hist, tmp) = (table_of (hist @ [p]), tmp @ [p])"
proof (cases "p \<in> set hist")
  case True
  then show ?thesis
    by (simp add: table_of_def Let_def map_of_table set_first_seen first_seen_snoc)
next
  case False
  then show ?thesis
    by (simp add: table_of_def Let_def map_of_table set_first_seen first_seen_snoc)
qed

lemma points_loop_table:
  "points_loop ps (table_of hist, tmp) = (table_of (hist @ ps), tmp @ ps)"
proof (induction ps arbitrary: hist tmp)
  case Nil
  show ?case by simp
next
  case (Cons p ps)
  have "points_loop (p # ps) (table_of hist, tmp) = points_loop ps (table_of (hist @ [p]), tmp @ [p])"
    by (simp only: points_loop.simps visit_point_table)
  then show ?case by (simp add: Cons.IH)
qed

lemma subfacets_loop_table:
  "subfacets_loop sfs (table_of hist, tmp) =
     (table_of (hist @ concat (map points sfs)), tmp @ concat (map points sfs))"
proof (induction sfs arbitrary: hist tmp)
  case Nil
  show ?case by simp
next
  case (Cons sf sfs)
  show ?case by (simp add: points_loop_table Cons.IH)
qed

lemma table_of_Nil: "table_of [] = ([], [], 0)"
  by (simp add: table_of_def first_seen_def)

lemma face_lookup_table:
  assumes "set ps \<subseteq> set seen"
  shows "list_comp (getitem (zip seen (map int [0..<length seen]))) ps = Inr (map (position seen) ps)"
proof (rule list_comp_Inr)
  fix p assume "p \<in> set ps"
  with assms have "p \<in> set seen" by blast
  then show "getitem (zip seen (map int [0..<length seen])) p = Inr (position seen p)"
    by (simp add: getitem_def map_of_table)
qed

lemma position_prefix:
  assumes "set ps \<subseteq> set xs"
  shows "map (position (first_seen (xs @ ys))) ps = map (position (first_seen xs)) ps"
proof (rule map_cong[OF refl])
  fix p assume "p \<in> set ps"
  with assms have "p \<in> set (first_seen xs)" by (auto simp: set_first_seen)
  then show "position (first_seen (xs @ ys)) p = position (first_seen xs) p"
    by (simp add: first_seen_append position_append)
qed

lemma facets_loop_table:
  assumes "set_iteration itp"
  shows "facets_loop itp fs (table_of hist, fcs) =
     Inr (table_of (hist @ concat (map facet_points fs)),
          fcs @ map (\<lambda>f. map (position (first_seen (hist @ concat (map facet_points fs))))
                             (itp (facet_points f))) fs)"
proof (induction fs arbitrary: hist fcs)
  case Nil
  show ?case by simp
next
  case (Cons f fs)
  let ?h = "hist @ facet_points f"
  let ?seen = "first_seen ?h"
  let ?face = "map (position ?seen) (itp (facet_points f))"
  from assms have it: "set (itp (facet_points f)) = set (facet_points f)"
    by (simp add: set_iteration_def)
  have sub: "subfacets_loop (subfacets f) (table_of hist, []) = (table_of ?h, facet_points f)"
    by (simp add: subfacets_loop_table facet_points_def)
  have look: "list_comp (getitem (zip ?seen (map int [0..<length ?seen]))) (itp (facet_points f)) =
              Inr ?face"
    by (rule face_lookup_table) (simp add: it set_first_seen)
  have step: "facets_loop itp (f # fs) (table_of hist, fcs) =
              facets_loop itp fs (table_of ?h, fcs @ [?face])"
    using look by (simp add: sub) (simp add: table_of_def Let_def)
  have stable: "map (position (first_seen (hist @ facet_points f @ concat (map facet_points fs))))
                    (itp (facet_points f)) = ?face"
    using position_prefix[of "itp (facet_points f)" ?h "concat (map facet_points fs)"]
    by (simp add: it)
  show ?case
    by (simp only: step Cons.IH) (simp add: stable)
qed

lemma extract_faces_eq:
  assumes "set_iteration itp"
  shows "extract_faces itf itp h =
     Inr (table_of (concat (map facet_points (live_facets itf h))),
          map (\<lambda>f. map (position (first_seen (concat (map facet_points (live_facets itf h)))))
                        (itp (facet_points f)))
              (live_facets itf h))"
  using facets_loop_table[OF assms, of "live_facets itf h" "[]" "[]"]
  by (simp add: extract_faces_def table_of_Nil)

lemma live_facets_set:
  assumes "set_iteration itf"
  shows "distinct (live_facets itf h) \<and> set (live_facets itf h) = set (facets h) - set (removed h)"
  using assms by (auto simp: set_iteration_def live_facets_def)

lemma face_distinct:
  assumes "set_iteration itp" "set (facet_points f) \<subseteq> set seen"
  shows "distinct (map (position seen) (itp (facet_points f)))"
proof -
  from assms(1) have d: "distinct (itp (facet_points f))" and s: "set (itp (facet_points f)) = set (facet_points f)"
    by (simp_all add: set_iteration_def)
  from s assms(2) have "inj_on (position seen) (set (itp (facet_points f)))"
    using position_inj[of seen] by (auto intro: inj_on_subset)
  with d show ?thesis by (simp add: distinct_map)
qed

lemma face_mset:
  assumes "set_iteration itp"
  shows "mset (map (position seen) (itp (facet_points f))) = mset (insertion_order_face seen f)"
proof -
  from assms have "distinct (itp (facet_points f))" "set (itp (facet_points f)) = set (facet_points f)"
    by (simp_all add: set_iteration_def)
  then have "mset (itp (facet_points f)) = mset (first_seen (facet_points f))"
    by (simp add: set_eq_iff_mset_eq_distinct[symmetric] distinct_first_seen set_first_seen)
  then show ?thesis
    unfolding insertion_order_face_def by (metis mset_map)
qed

lemma example_extract_slot:
  "extract_faces first_seen slot_order example_hull =
     Inr (([(0, 1, 0), (0, 0, 1), (0, 0, 0), (1, 0, 0), (1, 1, 1)],
           [(Point 2 (0, 1, 0), 0), (Point 3 (0, 0, 1), 1), (Point 0 (0, 0, 0), 2),
            (Point 1 (1, 0, 0), 3), (Point 4 (1, 1, 1), 4)],
           5),
          [[2, 0, 1], [2, 3, 1], [2, 3, 0], [3, 0, 4], [0, 1, 4], [3, 1, 4]])"
  by code_simp

lemma example_insertion_faces:
  "map (insertion_order_face
          (first_seen (concat (map facet_points (live_facets first_seen example_hull)))))
       (live_facets first_seen example_hull) =
     [[0, 1, 2], [3, 1, 2], [3, 0, 2], [0, 4, 3], [1, 4, 0], [1, 4, 3]]"
  by code_simp

text \<open>
  Claim C1. Whatever order the two set iterations yield, the extraction succeeds on every
  hull state. The live facets are traversed once each. The vertex table holds the
  coordinates of the distinct points in the order of their first sighting, and the
  dictionary numbers these points 0, 1, 2, \<dots> in that order. The face of a facet holds
  the dictionary index of every distinct point its subfacets touch, each once, and no
  other; every index in a face is less than the length of the vertex table.
\<close>

theorem extract_faces_vertex_table:
  fixes h :: "'c hull_state" and itf itp
  defines "live \<equiv> live_facets itf h"
  defines "seen \<equiv> first_seen (concat (map facet_points (live_facets itf h)))"
  assumes "set_iteration itf" and "set_iteration itp"
  shows "distinct live \<and> set live = set (facets h) - set (removed h) \<and>
     (\<exists>verts d c fcs. extract_faces itf itp h = Inr ((verts, d, c), fcs) \<and>
        verts = map coordinates seen \<and> d = zip seen (map int [0..<length seen]) \<and>
        c = int (length seen) \<and>
        fcs = map (\<lambda>f. map (position seen) (itp (facet_points f))) live \<and>
        (\<forall>f\<in>set live. \<forall>p\<in>set (facet_points f). map_of d p = Some (position seen p)) \<and>
        (\<forall>f\<in>set live. distinct (map (position seen) (itp (facet_points f))) \<and>
            set (map (position seen) (itp (facet_points f))) = position seen ` set (facet_points f)) \<and>
        (\<forall>face\<in>set fcs. \<forall>j\<in>set face. 0 \<le> j \<and> j < int (length verts)))"
proof -
  have sub: "set (facet_points f) \<subseteq> set seen" if "f \<in> set live" for f
    using that by (auto simp: seen_def live_def set_first_seen)
  have it: "set (itp xs) = set xs" for xs
    using assms(4) by (simp add: set_iteration_def)
  have 1: "extract_faces itf itp h =
        Inr ((map coordinates seen, zip seen (map int [0..<length seen]), int (length seen)),
             map (\<lambda>f. map (position seen) (itp (facet_points f))) live)"
    using extract_faces_eq[OF assms(4), of itf h] by (simp add: table_of_def Let_def seen_def live_def)
  have 2: "\<forall>f\<in>set live. \<forall>p\<in>set (facet_points f).
             map_of (zip seen (map int [0..<length seen])) p = Some (position seen p)"
    using sub by (auto simp: map_of_table)
  have 3: "\<forall>f\<in>set live. distinct (map (position seen) (itp (facet_points f))) \<and>
            set (map (position seen) (itp (facet_points f))) = position seen ` set (facet_points f)"
    using sub face_distinct[OF assms(4)] by (simp add: it)
  have 4: "\<forall>face\<in>set (map (\<lambda>f. map (position seen) (itp (facet_points f))) live). \<forall>j\<in>set face.
             0 \<le> j \<and> j < int (length (map coordinates seen))"
    using sub position_bounds[of _ seen] by (auto simp: it)
  from live_facets_set[OF assms(3), of h] 1 2 3 4 show ?thesis
    unfolding live_def by simp
qed

theorem extract_faces_vertex_table_witness:
  "set_iteration (first_seen :: point3d facet list \<Rightarrow> point3d facet list) \<and>
   set_iteration (slot_order :: point3d point list \<Rightarrow> point3d point list) \<and>
   distinct (live_facets first_seen example_hull) \<and>
   (\<exists>verts d c fcs. extract_faces first_seen slot_order example_hull = Inr ((verts, d, c), fcs) \<and>
      verts = [(0, 1, 0), (0, 0, 1), (0, 0, 0), (1, 0, 0), (1, 1, 1)] \<and>
      d = [(Point 2 (0, 1, 0), 0), (Point 3 (0, 0, 1), 1), (Point 0 (0, 0, 0), 2),
           (Point 1 (1, 0, 0), 3), (Point 4 (1, 1, 1), 4)] \<and>
      c = 5 \<and>
      fcs = [[2, 0, 1], [2, 3, 1], [2, 3, 0], [3, 0, 4], [0, 1, 4], [3, 1, 4]] \<and>
      list_all (list_all (\<lambda>j. 0 \<le> j \<and> j < int (length verts))) fcs)"
proof -
  have itf: "set_iteration (first_seen :: point3d facet list \<Rightarrow> point3d facet list)"
    by (rule set_iteration_first_seen)
  have itp: "set_iteration (slot_order :: point3d point list \<Rightarrow> point3d point list)"
    by (rule set_iteration_slot_order)
  note t = extract_faces_vertex_table[OF itf itp, of example_hull]
  from t have live: "distinct (live_facets first_seen example_hull)"
    by (rule conjunct1)
  from t[THEN conjunct2, THEN conjunct2]
  obtain verts d c fcs
    where r: "extract_faces first_seen slot_order example_hull = Inr ((verts, d, c), fcs)"
      and b: "\<forall>face\<in>set fcs. \<forall>j\<in>set face. 0 \<le> j \<and> j < int (length verts)"
    by (elim exE conjE)
  from b have la: "list_all (list_all (\<lambda>j. 0 \<le> j \<and> j < int (length verts))) fcs"
    unfolding list_all_iff by blast
  from r have v: "verts = [(0, 1, 0), (0, 0, 1), (0, 0, 0), (1, 0, 0), (1, 1, 1)]"
    and d: "d = [(Point 2 (0, 1, 0), 0), (Point 3 (0, 0, 1), 1), (Point 0 (0, 0, 0), 2),
           (Point 1 (1, 0, 0), 3), (Point 4 (1, 1, 1), 4)]"
    and c: "c = 5"
    and f: "fcs = [[2, 0, 1], [2, 3, 1], [2, 3, 0], [3, 0, 4], [0, 1, 4], [3, 1, 4]]"
    unfolding example_extract_slot by simp_all
  from itf itp live r v d c f la show ?thesis
    by (intro conjI exI[of _ verts] exI[of _ d] exI[of _ c] exI[of _ fcs])
qed

text \<open>
  An exception of the build is the result of \<^verbatim>\<open>ConvexHull3D.__init__\<close>. When the build
  returns a hull state whose live facets each touch a point, the constructor of
  \<^verbatim>\<open>Polyhedron\<close> accepts what the extraction hands to it, every index of every face being
  in range.
\<close>

lemma ConvexHull3D_init_build_error:
  "build tolerance array = Inl e \<Longrightarrow> ConvexHull3D_init build itf itp array tolerance = Inl e"
  by (simp add: ConvexHull3D_init_def)

lemma ConvexHull3D_init_ok:
  fixes h :: "point3d hull_state" and itf itp
  defines "live \<equiv> live_facets itf h"
  defines "seen \<equiv> first_seen (concat (map facet_points (live_facets itf h)))"
  assumes build: "build tol array = Inr h" and itp: "set_iteration itp"
    and pts: "\<forall>f\<in>set (live_facets itf h). facet_points f \<noteq> []"
  shows "\<exists>s. ConvexHull3D_init build itf itp array tol = Inr s \<and>
           vertex_coords s = map coordinates seen \<and>
           faces_list s = map (\<lambda>f. map (position seen) (itp (facet_points f))) live"
proof -
  let ?fl = "map (\<lambda>f. map (position seen) (itp (facet_points f))) live"
  have it: "set (itp xs) = set xs" for xs
    using itp by (simp add: set_iteration_def)
  have sub: "set (facet_points f) \<subseteq> set seen" if "f \<in> set live" for f
    using that by (auto simp: seen_def live_def set_first_seen)
  have rng: "\<forall>face\<in>set ?fl. \<forall>j\<in>set face. 0 \<le> j \<and> j < int (length (map coordinates seen))"
    using sub position_bounds[of _ seen] by (auto simp: it)
  have ex: "extract_faces itf itp h =
        Inr ((map coordinates seen, zip seen (map int [0..<length seen]), int (length seen)), ?fl)"
    using extract_faces_eq[OF itp, of itf h] by (simp add: table_of_def Let_def seen_def live_def)
  have ne: "[] \<notin> set ?fl"
  proof
    assume "[] \<in> set ?fl"
    then obtain f where f: "f \<in> set live" and "itp (facet_points f) = []" by auto
    then have "set (facet_points f) = {}" using it[of "facet_points f"] by simp
    with pts f show False by (simp add: live_def)
  qed
  show ?thesis
    by (simp add: ConvexHull3D_init_def build ex Polyhedron_init_ok[OF rng ne])
qed

text \<open>
  Claim C6, as amended. The order of the indices in a face is the order in which iterating
  the facet's point set yields its points. Each face is a rearrangement of the face in
  insertion order, without repetition, and the faces are a function of the hull's
  traversal and of the set iteration.
\<close>

theorem extract_faces_order:
  fixes h :: "'c hull_state" and itf itp
  defines "live \<equiv> live_facets itf h"
  defines "seen \<equiv> first_seen (concat (map facet_points (live_facets itf h)))"
  assumes "set_iteration itp"
  shows "\<exists>tab fcs. extract_faces itf itp h = Inr (tab, fcs) \<and>
     fcs = map (\<lambda>f. map (position seen) (itp (facet_points f))) live \<and>
     map mset fcs = map (\<lambda>f. mset (insertion_order_face seen f)) live \<and>
     list_all distinct fcs"
proof -
  have sub: "set (facet_points f) \<subseteq> set seen" if "f \<in> set live" for f
    using that by (auto simp: seen_def live_def set_first_seen)
  have "map mset (map (\<lambda>f. map (position seen) (itp (facet_points f))) live) =
        map (\<lambda>f. mset (insertion_order_face seen f)) live"
    by (simp add: face_mset[OF assms(3)] del: mset_map)
  moreover have "list_all distinct (map (\<lambda>f. map (position seen) (itp (facet_points f))) live)"
    using sub face_distinct[OF assms(3)] by (simp add: list_all_iff)
  ultimately show ?thesis
    using extract_faces_eq[OF assms(3), of itf h]
    by (simp add: seen_def live_def table_of_def Let_def)
qed

theorem extract_faces_order_witness:
  "set_iteration (slot_order :: point3d point list \<Rightarrow> point3d point list) \<and>
   (\<exists>tab fcs. extract_faces first_seen slot_order example_hull = Inr (tab, fcs) \<and>
      fcs = [[2, 0, 1], [2, 3, 1], [2, 3, 0], [3, 0, 4], [0, 1, 4], [3, 1, 4]] \<and>
      map mset fcs = map mset [[0, 1, 2], [3, 1, 2], [3, 0, 2], [0, 4, 3], [1, 4, 0], [1, 4, 3]] \<and>
      list_all distinct fcs)"
proof -
  have itp: "set_iteration (slot_order :: point3d point list \<Rightarrow> point3d point list)"
    by (rule set_iteration_slot_order)
  from extract_faces_order[OF itp, of first_seen example_hull]
  obtain tab fcs where r: "extract_faces first_seen slot_order example_hull = Inr (tab, fcs)"
    and m: "map mset fcs = map (\<lambda>f. mset (insertion_order_face
              (first_seen (concat (map facet_points (live_facets first_seen example_hull)))) f))
              (live_facets first_seen example_hull)"
    and d: "list_all distinct fcs" by (elim exE conjE)
  from r have fcs: "fcs = [[2, 0, 1], [2, 3, 1], [2, 3, 0], [3, 0, 4], [0, 1, 4], [3, 1, 4]]"
    by (simp add: example_extract_slot)
  have "map (\<lambda>f. mset (insertion_order_face
              (first_seen (concat (map facet_points (live_facets first_seen example_hull)))) f))
              (live_facets first_seen example_hull) =
        map mset (map (insertion_order_face
              (first_seen (concat (map facet_points (live_facets first_seen example_hull)))))
              (live_facets first_seen example_hull))"
    by (simp add: comp_def del: mset_map)
  with m have "map mset fcs =
      map mset [[0, 1, 2], [3, 1, 2], [3, 0, 2], [0, 4, 3], [1, 4, 0], [1, 4, 3]]"
    by (simp only: example_insertion_faces)
  with itp r fcs d show ?thesis
    by (intro conjI exI[of _ tab] exI[of _ fcs])
qed

text \<open>
  Claim C6 as stated fails: a set need not yield its points in insertion order. With the
  iteration by hash slot, the first live facet of the example hull, whose points are
  inserted in the order 2, 3, 0 (indices 0, 1, 2), gets the face \<open>[2, 0, 1]\<close>.
\<close>

theorem extract_faces_not_insertion_order:
  "set_iteration (slot_order :: point3d point list \<Rightarrow> point3d point list) \<and>
   extract_faces first_seen slot_order example_hull =
     Inr (([(0, 1, 0), (0, 0, 1), (0, 0, 0), (1, 0, 0), (1, 1, 1)],
           [(Point 2 (0, 1, 0), 0), (Point 3 (0, 0, 1), 1), (Point 0 (0, 0, 0), 2),
            (Point 1 (1, 0, 0), 3), (Point 4 (1, 1, 1), 4)],
           5),
          [[2, 0, 1], [2, 3, 1], [2, 3, 0], [3, 0, 4], [0, 1, 4], [3, 1, 4]]) \<and>
   map (insertion_order_face
          (first_seen (concat (map facet_points (live_facets first_seen example_hull)))))
       (live_facets first_seen example_hull) =
     [[0, 1, 2], [3, 1, 2], [3, 0, 2], [0, 4, 3], [1, 4, 0], [1, 4, 3]] \<and>
   map_sum id snd (extract_faces first_seen slot_order example_hull) \<noteq>
     Inr (map (insertion_order_face
                 (first_seen (concat (map facet_points (live_facets first_seen example_hull)))))
              (live_facets first_seen example_hull))"
proof (intro conjI)
  show "set_iteration (slot_order :: point3d point list \<Rightarrow> point3d point list)"
    by (rule set_iteration_slot_order)
  show "extract_faces first_seen slot_order example_hull =
     Inr (([(0, 1, 0), (0, 0, 1), (0, 0, 0), (1, 0, 0), (1, 1, 1)],
           [(Point 2 (0, 1, 0), 0), (Point 3 (0, 0, 1), 1), (Point 0 (0, 0, 0), 2),
            (Point 1 (1, 0, 0), 3), (Point 4 (1, 1, 1), 4)],
           5),
          [[2, 0, 1], [2, 3, 1], [2, 3, 0], [3, 0, 4], [0, 1, 4], [3, 1, 4]])"
    by (rule example_extract_slot)
  show "map (insertion_order_face
          (first_seen (concat (map facet_points (live_facets first_seen example_hull)))))
       (live_facets first_seen example_hull) =
     [[0, 1, 2], [3, 1, 2], [3, 0, 2], [0, 4, 3], [1, 4, 0], [1, 4, 3]]"
    by code_simp
  then show "map_sum id snd (extract_faces first_seen slot_order example_hull) \<noteq>
     Inr (map (insertion_order_face
                 (first_seen (concat (map facet_points (live_facets first_seen example_hull)))))
              (live_facets first_seen example_hull))"
    by (simp add: example_extract_slot)
qed

subsection \<open>Known solids\<close>

lemma undirected_edges_card:
  "card (undirected_edges es) = length (remdups (map (\<lambda>(a, b). (min a b, max a b)) es))"
proof -
  let ?f = "\<lambda>(a, b). {a, b} :: int set"
  let ?n = "\<lambda>(a, b). (min a b, max a b) :: int \<times> int"
  have fn: "?f (?n e) = ?f e" for e
    by (cases e) (auto simp: min_def max_def)
  have "?f ` (?n ` set es) = (\<lambda>e. ?f (?n e)) ` set es"
    by (simp only: image_image)
  then have "?f ` set es = ?f ` (?n ` set es)"
    by (simp only: fn)
  moreover have "inj_on ?f (?n ` set es)"
    by (rule inj_onI) (auto simp: doubleton_eq_iff min_def max_def split: if_splits)
  ultimately have "card (?f ` set es) = card (?n ` set es)"
    by (simp add: card_image)
  then show ?thesis
    by (simp add: undirected_edges_def length_remdups_card_conv)
qed

lemma length_get_edges: "length (get_edges fl) = sum_list (map length fl)"
proof (induction fl)
  case Nil
  show ?case by simp
next
  case (Cons face fl)
  have "length (drop 1 face @ take 1 face) = length face"
    by (cases face) simp_all
  with Cons show ?case by simp
qed

lemma solid_counts:
  assumes "list_all (list_all (\<lambda>j. 0 \<le> j \<and> j < int (length cs))) fl"
    and "[] \<notin> set fl"
    and "length cs = v" and "length fl = f" and "sum_list (map length fl) = d"
    and "length (remdups (map (\<lambda>(a, b). (min a b, max a b)) (get_edges fl))) = e"
  shows "\<exists>s. Polyhedron_init cs fl = Inr s \<and> length (vertex_coords s) = v \<and>
           length (faces_list s) = f \<and> length (edges s) = d \<and>
           card (undirected_edges (edges s)) = e"
proof -
  from assms(1) have "\<forall>face\<in>set fl. \<forall>j\<in>set face. 0 \<le> j \<and> j < int (length cs)"
    by (simp add: list_all_iff)
  from Polyhedron_init_ok[OF this assms(2)] assms(3-) show ?thesis
    by (simp add: undirected_edges_card length_get_edges)
qed

lemma Tetrahedron_counts:
  "\<exists>s. Tetrahedron l = Inr s \<and> length (vertex_coords s) = 4 \<and> length (faces_list s) = 4 \<and>
       length (edges s) = 12 \<and> card (undirected_edges (edges s)) = 6"
  unfolding Tetrahedron_def Let_def
proof (rule solid_counts)
  show "length (remdups (map (\<lambda>(a, b). (min a b, max a b))
          (get_edges [[0, 1, 2], [3, 0, 2], [0, 1, 3], [3, 1, 2]]))) = 6"
    by code_simp
qed simp_all

lemma Octahedron_counts:
  "\<exists>s. Octahedron l = Inr s \<and> length (vertex_coords s) = 6 \<and> length (faces_list s) = 8 \<and>
       length (edges s) = 24 \<and> card (undirected_edges (edges s)) = 12"
  unfolding Octahedron_def Let_def
proof (rule solid_counts)
  show "length (remdups (map (\<lambda>(a, b). (min a b, max a b))
          (get_edges [[2, 4, 1], [0, 4, 2], [4, 3, 0], [1, 3, 4], [3, 5, 0], [1, 5, 3], [2, 5, 1],
            [0, 5, 2]]))) = 12"
    by code_simp
qed simp_all

lemma Icosahedron_counts:
  "\<exists>s. Icosahedron l = Inr s \<and> length (vertex_coords s) = 12 \<and> length (faces_list s) = 20 \<and>
       length (edges s) = 60 \<and> card (undirected_edges (edges s)) = 30"
  unfolding Icosahedron_def Let_def
proof (rule solid_counts)
  show "length (remdups (map (\<lambda>(a, b). (min a b, max a b))
          (get_edges [[1, 8, 0], [1, 5, 7], [8, 5, 1], [7, 3, 5], [5, 9, 3], [8, 9, 5], [3, 2, 9],
            [9, 4, 2], [8, 4, 9], [0, 4, 8], [6, 4, 0], [6, 2, 4], [11, 2, 6], [3, 11, 2],
            [0, 6, 10], [10, 1, 0], [10, 7, 1], [11, 7, 3], [10, 11, 7], [10, 11, 6]]))) = 30"
    by code_simp
qed simp_all

lemma Dodecahedron_counts:
  "\<exists>s. Dodecahedron l = Inr s \<and> length (vertex_coords s) = 20 \<and> length (faces_list s) = 12 \<and>
       length (edges s) = 60 \<and> card (undirected_edges (edges s)) = 30"
  unfolding Dodecahedron_def Let_def
proof (rule solid_counts)
  show "length (remdups (map (\<lambda>(a, b). (min a b, max a b))
          (get_edges [[18, 16, 0, 12, 1], [3, 18, 16, 2, 14], [3, 10, 9, 1, 18], [1, 9, 5, 13, 12],
            [0, 8, 4, 13, 12], [2, 16, 0, 8, 11], [4, 17, 6, 11, 8], [17, 19, 5, 13, 4],
            [19, 7, 15, 6, 17], [6, 15, 14, 2, 11], [19, 5, 9, 10, 7], [7, 10, 3, 14, 15]]))) = 30"
    by code_simp
qed simp_all

text \<open>
  Claim C8. At every edge length, the builders of the tetrahedron, the octahedron, the
  icosahedron and the dodecahedron succeed, with 4, 6, 12 and 20 vertices, 4, 8, 20 and 12
  faces, and 6, 12, 30 and 30 undirected edges once the stored edge list (of 12, 24, 60
  and 60 pairs) is deduplicated.
\<close>

theorem platonic_solids_counts:
  "(\<exists>s. Tetrahedron l = Inr s \<and> length (vertex_coords s) = 4 \<and> length (faces_list s) = 4 \<and>
        length (edges s) = 12 \<and> card (undirected_edges (edges s)) = 6) \<and>
   (\<exists>s. Octahedron l = Inr s \<and> length (vertex_coords s) = 6 \<and> length (faces_list s) = 8 \<and>
        length (edges s) = 24 \<and> card (undirected_edges (edges s)) = 12) \<and>
   (\<exists>s. Icosahedron l = Inr s \<and> length (vertex_coords s) = 12 \<and> length (faces_list s) = 20 \<and>
        length (edges s) = 60 \<and> card (undirected_edges (edges s)) = 30) \<and>
   (\<exists>s. Dodecahedron l = Inr s \<and> length (vertex_coords s) = 20 \<and> length (faces_list s) = 12 \<and>
        length (edges s) = 60 \<and> card (undirected_edges (edges s)) = 30)"
proof (intro conjI)
  show "\<exists>s. Tetrahedron l = Inr s \<and> length (vertex_coords s) = 4 \<and> length (faces_list s) = 4 \<and>
        length (edges s) = 12 \<and> card (undirected_edges (edges s)) = 6"
    by (rule Tetrahedron_counts)
  show "\<exists>s. Octahedron l = Inr s \<and> length (vertex_coords s) = 6 \<and> length (faces_list s) = 8 \<and>
        length (edges s) = 24 \<and> card (undirected_edges (edges s)) = 12"
    by (rule Octahedron_counts)
  show "\<exists>s. Icosahedron l = Inr s \<and> length (vertex_coords s) = 12 \<and> length (faces_list s) = 20 \<and>
        length (edges s) = 60 \<and> card (undirected_edges (edges s)) = 30"
    by (rule Icosahedron_counts)
  show "\<exists>s. Dodecahedron l = Inr s \<and> length (vertex_coords s) = 20 \<and> length (faces_list s) = 12 \<and>
        length (edges s) = 60 \<and> card (undirected_edges (edges s)) = 30"
    by (rule Dodecahedron_counts)
qed

end
